theory Spec2Isabelle
  imports Main "HOL-Library.Log_Nat"
begin

section \<open>Domain model (types)\<close>

text \<open>
  The entity shapes of the types module. Identifiers and timestamps are strings, as in the
  source; optional fields are options. The field \<open>id\<close> of every entity is written
  \<open>ident\<close>, since \<open>id\<close> is the identity function of HOL. The numeric fields
  \<open>targetAccuracy\<close>, \<open>currentAccuracy\<close> and \<open>duration\<close> hold integers.
\<close>

datatype response = Correct | Incorrect | Approximation | No_response

datatype cueLevel =
  Independent | Verbal_cue | Visual_cue | Model | Partial_physical | Full_physical

datatype goalCategory =
  Articulation | Language | Fluency | Voice | Pragmatics | Phonology | Other

datatype goalStatus = Active | Achieved | Discontinued

datatype theme = Light | Dark | System

record client =
  ident :: string
  firstName :: string
  lastName :: string
  dateOfBirth :: string
  diagnosis :: "string option"
  "notes" :: "string option"
  createdAt :: string
  updatedAt :: string
  isActive :: bool

record goal =
  ident :: string
  clientId :: string
  name :: string
  description :: string
  targetAccuracy :: int
  currentAccuracy :: int
  targetDate :: "string option"
  status :: goalStatus
  category :: goalCategory
  createdAt :: string
  updatedAt :: string

record trial =
  ident :: string
  sessionId :: string
  goalId :: string
  prompt :: string
  response :: response
  cueLevel :: cueLevel
  "notes" :: "string option"
  timestamp :: string

record session =
  ident :: string
  clientId :: string
  date :: string
  duration :: int
  "notes" :: "string option"
  goals :: "string list"
  trials :: "trial list"
  createdAt :: string

record sessionStats =
  totalTrials :: nat
  correctTrials :: nat
  incorrectTrials :: nat
  approximationTrials :: nat
  noResponseTrials :: nat
  accuracy :: int

record appSettings =
  defaultSessionDuration :: int
  defaultTargetAccuracy :: int
  enableNotifications :: bool
  theme :: theme
  cueLevels :: "cueLevel list"
  responseOptions :: "response list"

section \<open>Numbers of the host language\<close>

text \<open>
  Every number of the program is a binary64 value, and \<open>/\<close> and \<open>*\<close> round their
  exact result to the nearest such value, ties to the even significand. \<open>double x\<close> is
  that rounding for a rational \<open>x\<close>: the significand has 53 bits, so \<open>x\<close> is scaled by
  a power of two into \<open>[2^52, 2^53)\<close>, rounded to an integer and scaled back. The exponent
  range is not limited here: the operands of the program are lengths of arrays (below
  \<open>2^32\<close>), percentages and their quotients, far from overflow and from subnormal values.
\<close>

definition ilog2 :: "rat \<Rightarrow> int" where
  "ilog2 x =
     (let (p, q) = quotient_of x; d = bitlen p - bitlen q
      in if 2 powi d \<le> x then d else d - 1)"

definition roundTiesToEven :: "rat \<Rightarrow> int" where
  "roundTiesToEven x =
     (let n = \<lfloor>x\<rfloor>; r = x - of_int n
      in if r < 1 / 2 then n else if 1 / 2 < r then n + 1 else if even n then n else n + 1)"

definition double :: "rat \<Rightarrow> rat" where
  "double x =
     (if x = 0 then 0
      else let e = ilog2 \<bar>x\<bar> - 52
           in sgn x * of_int (roundTiesToEven (\<bar>x\<bar> / 2 powi e)) * 2 powi e)"

text \<open>\<open>Math.round\<close>: the nearest integer, a tie going towards plus infinity.\<close>

definition Math_round :: "rat \<Rightarrow> int" where
  "Math_round x = \<lfloor>x + 1 / 2\<rfloor>"

section \<open>Aggregator (helpers: calculateSessionStats)\<close>

definition calculateSessionStats :: "trial list \<Rightarrow> sessionStats" where
  "calculateSessionStats ts =
     (let total = length ts;
          correct = length (filter (\<lambda>t. response t = Correct) ts);
          incorrect = length (filter (\<lambda>t. response t = Incorrect) ts);
          approximation = length (filter (\<lambda>t. response t = Approximation) ts);
          noResponse = length (filter (\<lambda>t. response t = No_response) ts);
          acc = (if total > 0
                 then Math_round (double (double (of_nat correct / of_nat total) * 100))
                 else 0)
      in \<lparr>totalTrials = total, correctTrials = correct, incorrectTrials = incorrect,
          approximationTrials = approximation, noResponseTrials = noResponse,
          accuracy = acc\<rparr>)"

text \<open>A trial with a given response, the other fields fixed; used for concrete inputs.\<close>

definition trialWith :: "response \<Rightarrow> trial" where
  "trialWith r =
     \<lparr>trial.ident = ''t'', trial.sessionId = '''', trial.goalId = ''g1'',
      trial.prompt = ''Trial 1'', trial.response = r, trial.cueLevel = Independent,
      trial.notes = None, trial.timestamp = ''2024-01-01''\<rparr>"

text \<open>
  The goal-accuracy update of the session screen: \<open>newAccuracy\<close> is the constant of that
  name in \<open>calculateAndUpdateGoalAccuracy\<close>,
  \<open>Math.round((goal.currentAccuracy + stats.accuracy) / 2)\<close>.
\<close>

definition newAccuracy :: "goal \<Rightarrow> sessionStats \<Rightarrow> int" where
  "newAccuracy g stats =
     Math_round (double (double (of_int (currentAccuracy g) + of_int (accuracy stats)) / 2))"

section \<open>Record store (services/storage)\<close>

text \<open>
  The key-value medium holds one document under each of the four keys. \<open>None\<close> is a key
  that is absent or whose text does not parse: \<open>getItem\<close> answers \<open>null\<close> in both cases.
  The stored text is not modelled, a document stands for its serialisation.
\<close>

record storage =
  CLIENTS :: "client list option"
  GOALS :: "goal list option"
  SESSIONS :: "session list option"
  SETTINGS :: "appSettings option"

definition DEFAULT_SETTINGS :: appSettings where
  "DEFAULT_SETTINGS =
     \<lparr>defaultSessionDuration = 30, defaultTargetAccuracy = 80, enableNotifications = True,
      theme = System,
      cueLevels = [Independent, Verbal_cue, Visual_cue, Model, Partial_physical, Full_physical],
      responseOptions = [Correct, Incorrect, Approximation, No_response]\<rparr>"

text \<open>
  \<open>setItem\<close>: the write of the medium either succeeds or throws, and the exception is caught
  and turned into \<open>false\<close>. Whether it succeeds is not decided by the program, so it is an
  argument here (\<open>ok\<close>); \<open>put\<close> is the update of the key written. A write that fails
  leaves the medium as it was.
\<close>

definition setItem :: "bool \<Rightarrow> (storage \<Rightarrow> storage) \<Rightarrow> storage \<Rightarrow> bool \<times> storage" where
  "setItem ok put st = (if ok then (True, put st) else (False, st))"

text \<open>\<open>Array.prototype.findIndex\<close>, with \<open>None\<close> for \<open>-1\<close>.\<close>

fun findIndex :: "('a \<Rightarrow> bool) \<Rightarrow> 'a list \<Rightarrow> nat option" where
  "findIndex P [] = None"
| "findIndex P (x # xs) = (if P x then Some 0 else map_option Suc (findIndex P xs))"

subsection \<open>Clients, goals, sessions, settings\<close>

text \<open>
  The timestamp \<open>new Date().toISOString()\<close> taken inside \<open>save\<close> is the argument \<open>now\<close>.
\<close>

definition ClientStorage_getAll :: "storage \<Rightarrow> client list" where
  "ClientStorage_getAll st = (case CLIENTS st of None \<Rightarrow> [] | Some cs \<Rightarrow> cs)"

definition GoalStorage_getAll :: "storage \<Rightarrow> goal list" where
  "GoalStorage_getAll st = (case GOALS st of None \<Rightarrow> [] | Some gs \<Rightarrow> gs)"

definition SessionStorage_getAll :: "storage \<Rightarrow> session list" where
  "SessionStorage_getAll st = (case SESSIONS st of None \<Rightarrow> [] | Some ss \<Rightarrow> ss)"

definition SettingsStorage_get :: "storage \<Rightarrow> appSettings" where
  "SettingsStorage_get st = (case SETTINGS st of None \<Rightarrow> DEFAULT_SETTINGS | Some s \<Rightarrow> s)"

definition ClientStorage_getById :: "string \<Rightarrow> storage \<Rightarrow> client option" where
  "ClientStorage_getById i st = find (\<lambda>c. client.ident c = i) (ClientStorage_getAll st)"

definition GoalStorage_getById :: "string \<Rightarrow> storage \<Rightarrow> goal option" where
  "GoalStorage_getById i st = find (\<lambda>g. goal.ident g = i) (GoalStorage_getAll st)"

definition SessionStorage_getById :: "string \<Rightarrow> storage \<Rightarrow> session option" where
  "SessionStorage_getById i st = find (\<lambda>s. session.ident s = i) (SessionStorage_getAll st)"

definition ClientStorage_save :: "client \<Rightarrow> string \<Rightarrow> bool \<Rightarrow> storage \<Rightarrow> bool \<times> storage" where
  "ClientStorage_save c now ok st =
     (let clients = ClientStorage_getAll st;
          clients' =
            (case findIndex (\<lambda>x. client.ident x = client.ident c) clients of
               Some existingIndex \<Rightarrow> clients[existingIndex := c\<lparr>client.updatedAt := now\<rparr>]
             | None \<Rightarrow> clients @ [c])
      in setItem ok (\<lambda>s. s\<lparr>CLIENTS := Some clients'\<rparr>) st)"

definition GoalStorage_save :: "goal \<Rightarrow> string \<Rightarrow> bool \<Rightarrow> storage \<Rightarrow> bool \<times> storage" where
  "GoalStorage_save g now ok st =
     (let goals = GoalStorage_getAll st;
          goals' =
            (case findIndex (\<lambda>x. goal.ident x = goal.ident g) goals of
               Some existingIndex \<Rightarrow> goals[existingIndex := g\<lparr>goal.updatedAt := now\<rparr>]
             | None \<Rightarrow> goals @ [g])
      in setItem ok (\<lambda>s. s\<lparr>GOALS := Some goals'\<rparr>) st)"

definition SessionStorage_save :: "session \<Rightarrow> bool \<Rightarrow> storage \<Rightarrow> bool \<times> storage" where
  "SessionStorage_save x ok st =
     (let sessions = SessionStorage_getAll st;
          sessions' =
            (case findIndex (\<lambda>y. session.ident y = session.ident x) sessions of
               Some existingIndex \<Rightarrow> sessions[existingIndex := x]
             | None \<Rightarrow> sessions @ [x])
      in setItem ok (\<lambda>s. s\<lparr>SESSIONS := Some sessions'\<rparr>) st)"

definition GoalStorage_delete :: "string \<Rightarrow> bool \<Rightarrow> storage \<Rightarrow> bool \<times> storage" where
  "GoalStorage_delete i ok st =
     (let filtered = filter (\<lambda>g. goal.ident g \<noteq> i) (GoalStorage_getAll st)
      in setItem ok (\<lambda>s. s\<lparr>GOALS := Some filtered\<rparr>) st)"

definition GoalStorage_deleteByClientId :: "string \<Rightarrow> bool \<Rightarrow> storage \<Rightarrow> bool \<times> storage" where
  "GoalStorage_deleteByClientId cid ok st =
     (let filtered = filter (\<lambda>g. goal.clientId g \<noteq> cid) (GoalStorage_getAll st)
      in setItem ok (\<lambda>s. s\<lparr>GOALS := Some filtered\<rparr>) st)"

definition SessionStorage_delete :: "string \<Rightarrow> bool \<Rightarrow> storage \<Rightarrow> bool \<times> storage" where
  "SessionStorage_delete i ok st =
     (let filtered = filter (\<lambda>x. session.ident x \<noteq> i) (SessionStorage_getAll st)
      in setItem ok (\<lambda>s. s\<lparr>SESSIONS := Some filtered\<rparr>) st)"

definition SessionStorage_deleteByClientId :: "string \<Rightarrow> bool \<Rightarrow> storage \<Rightarrow> bool \<times> storage" where
  "SessionStorage_deleteByClientId cid ok st =
     (let filtered = filter (\<lambda>x. session.clientId x \<noteq> cid) (SessionStorage_getAll st)
      in setItem ok (\<lambda>s. s\<lparr>SESSIONS := Some filtered\<rparr>) st)"

text \<open>
  \<open>ClientStorage.delete\<close> reads the clients, runs the two cascades, whose results it awaits
  and drops, and answers with the result of the write of the clients. The three writes
  have an outcome each: \<open>okG\<close>, \<open>okS\<close>, \<open>okC\<close>.
\<close>

definition ClientStorage_delete ::
  "string \<Rightarrow> bool \<Rightarrow> bool \<Rightarrow> bool \<Rightarrow> storage \<Rightarrow> bool \<times> storage" where
  "ClientStorage_delete i okG okS okC st =
     (let filtered = filter (\<lambda>c. client.ident c \<noteq> i) (ClientStorage_getAll st);
          st1 = snd (GoalStorage_deleteByClientId i okG st);
          st2 = snd (SessionStorage_deleteByClientId i okS st1)
      in setItem okC (\<lambda>s. s\<lparr>CLIENTS := Some filtered\<rparr>) st2)"

definition GoalStorage_updateAccuracy ::
  "string \<Rightarrow> int \<Rightarrow> string \<Rightarrow> bool \<Rightarrow> storage \<Rightarrow> bool \<times> storage" where
  "GoalStorage_updateAccuracy i acc now ok st =
     (case GoalStorage_getById i st of
        None \<Rightarrow> (False, st)
      | Some g \<Rightarrow>
          GoalStorage_save
            (g\<lparr>goal.currentAccuracy := acc,
               goal.status := (if goal.targetAccuracy g \<le> acc then Achieved else goal.status g)\<rparr>)
            now ok st)"

definition SettingsStorage_save :: "appSettings \<Rightarrow> bool \<Rightarrow> storage \<Rightarrow> bool \<times> storage" where
  "SettingsStorage_save x ok st = setItem ok (\<lambda>s. s\<lparr>SETTINGS := Some x\<rparr>) st"

subsection \<open>Backup: exportAllData and importData\<close>

text \<open>
  The backup document. \<open>exportAllData\<close> serialises an object with the export date and the
  four collections; \<open>importData\<close> parses a text and tests each of the four properties for
  truthiness before writing it. A property of the parsed value is \<open>Absent\<close>, \<open>Falsy\<close>
  (\<open>null\<close>, \<open>false\<close>, \<open>0\<close> or the empty string) or a \<open>Value\<close> of the shape of the
  collection; an array, also the empty one, and an object are truthy. Values of another
  shape are outside the types of the program.

  The result of \<open>JSON.parse\<close> is \<open>SyntaxError\<close> (the text is not JSON), \<open>JNull\<close> (the
  text is the JSON value \<open>null\<close>, whose properties cannot be read: the \<open>TypeError\<close> lands in
  the \<open>catch\<close> of \<open>importData\<close>) or a document; a number, string, boolean or array has none
  of the four properties and is the document with four \<open>Absent\<close> fields. Parsing the text
  that \<open>exportAllData\<close> returns gives back the object it serialised.
\<close>

datatype 'a field = Absent | Falsy | Value 'a

record document =
  exportDate :: "string field"
  clients :: "client list field"
  goals :: "goal list field"
  sessions :: "session list field"
  settings :: "appSettings field"

datatype parsed = SyntaxError | JNull | JDoc document

definition exportAllData :: "string \<Rightarrow> storage \<Rightarrow> document" where
  "exportAllData now st =
     \<lparr>exportDate = Value now,
      clients = Value (ClientStorage_getAll st),
      goals = Value (GoalStorage_getAll st),
      sessions = Value (SessionStorage_getAll st),
      settings = Value (SettingsStorage_get st)\<rparr>"

definition importData ::
  "parsed \<Rightarrow> bool \<Rightarrow> bool \<Rightarrow> bool \<Rightarrow> bool \<Rightarrow> storage \<Rightarrow> bool \<times> storage" where
  "importData data okC okG okS okT st =
     (case data of
        SyntaxError \<Rightarrow> (False, st)
      | JNull \<Rightarrow> (False, st)
      | JDoc d \<Rightarrow>
          (let st1 = (case document.clients d of
                        Value v \<Rightarrow> snd (setItem okC (\<lambda>s. s\<lparr>CLIENTS := Some v\<rparr>) st)
                      | _ \<Rightarrow> st);
               st2 = (case document.goals d of
                        Value v \<Rightarrow> snd (setItem okG (\<lambda>s. s\<lparr>GOALS := Some v\<rparr>) st1)
                      | _ \<Rightarrow> st1);
               st3 = (case document.sessions d of
                        Value v \<Rightarrow> snd (setItem okS (\<lambda>s. s\<lparr>SESSIONS := Some v\<rparr>) st2)
                      | _ \<Rightarrow> st2);
               st4 = (case document.settings d of
                        Value v \<Rightarrow> snd (setItem okT (\<lambda>s. s\<lparr>SETTINGS := Some v\<rparr>) st3)
                      | _ \<Rightarrow> st3)
           in (True, st4)))"

section \<open>State facade (context/AppContext)\<close>

text \<open>
  The provider keeps four pieces of state, the in-memory mirror, next to the record store.
  A mutation runs the store operation and, when that answers \<open>true\<close>, applies its own
  update to the mirror; the state setters are functional updates of the previous value.
  \<open>loadData\<close> is what the provider reads at start and at \<open>refreshData\<close>.
\<close>

record appState =
  clients :: "client list"
  goals :: "goal list"
  sessions :: "session list"
  settings :: appSettings

definition loadData :: "storage \<Rightarrow> appState" where
  "loadData st =
     \<lparr>appState.clients = ClientStorage_getAll st,
      appState.goals = GoalStorage_getAll st,
      appState.sessions = SessionStorage_getAll st,
      appState.settings = SettingsStorage_get st\<rparr>"

definition addClient ::
  "client \<Rightarrow> string \<Rightarrow> bool \<Rightarrow> appState \<times> storage \<Rightarrow> bool \<times> appState \<times> storage" where
  "addClient c now ok w =
     (case w of (m, st) \<Rightarrow>
        (case ClientStorage_save c now ok st of (success, st') \<Rightarrow>
           (success,
            if success then m\<lparr>appState.clients := appState.clients m @ [c]\<rparr> else m,
            st')))"

definition updateClient ::
  "client \<Rightarrow> string \<Rightarrow> bool \<Rightarrow> appState \<times> storage \<Rightarrow> bool \<times> appState \<times> storage" where
  "updateClient c now ok w =
     (case w of (m, st) \<Rightarrow>
        (case ClientStorage_save c now ok st of (success, st') \<Rightarrow>
           (success,
            if success
            then m\<lparr>appState.clients :=
                     map (\<lambda>x. if client.ident x = client.ident c then c else x)
                       (appState.clients m)\<rparr>
            else m,
            st')))"

definition deleteClient ::
  "string \<Rightarrow> bool \<Rightarrow> bool \<Rightarrow> bool \<Rightarrow> appState \<times> storage \<Rightarrow> bool \<times> appState \<times> storage" where
  "deleteClient i okG okS okC w =
     (case w of (m, st) \<Rightarrow>
        (case ClientStorage_delete i okG okS okC st of (success, st') \<Rightarrow>
           (success,
            if success
            then m\<lparr>appState.clients := filter (\<lambda>c. client.ident c \<noteq> i) (appState.clients m),
                   appState.goals := filter (\<lambda>g. goal.clientId g \<noteq> i) (appState.goals m),
                   appState.sessions :=
                     filter (\<lambda>x. session.clientId x \<noteq> i) (appState.sessions m)\<rparr>
            else m,
            st')))"

definition getClient :: "appState \<Rightarrow> string \<Rightarrow> client option" where
  "getClient m i = find (\<lambda>c. client.ident c = i) (appState.clients m)"

definition addGoal ::
  "goal \<Rightarrow> string \<Rightarrow> bool \<Rightarrow> appState \<times> storage \<Rightarrow> bool \<times> appState \<times> storage" where
  "addGoal g now ok w =
     (case w of (m, st) \<Rightarrow>
        (case GoalStorage_save g now ok st of (success, st') \<Rightarrow>
           (success,
            if success then m\<lparr>appState.goals := appState.goals m @ [g]\<rparr> else m,
            st')))"

definition updateGoal ::
  "goal \<Rightarrow> string \<Rightarrow> bool \<Rightarrow> appState \<times> storage \<Rightarrow> bool \<times> appState \<times> storage" where
  "updateGoal g now ok w =
     (case w of (m, st) \<Rightarrow>
        (case GoalStorage_save g now ok st of (success, st') \<Rightarrow>
           (success,
            if success
            then m\<lparr>appState.goals :=
                     map (\<lambda>x. if goal.ident x = goal.ident g then g else x) (appState.goals m)\<rparr>
            else m,
            st')))"

definition deleteGoal ::
  "string \<Rightarrow> bool \<Rightarrow> appState \<times> storage \<Rightarrow> bool \<times> appState \<times> storage" where
  "deleteGoal i ok w =
     (case w of (m, st) \<Rightarrow>
        (case GoalStorage_delete i ok st of (success, st') \<Rightarrow>
           (success,
            if success
            then m\<lparr>appState.goals := filter (\<lambda>g. goal.ident g \<noteq> i) (appState.goals m)\<rparr>
            else m,
            st')))"

definition getGoal :: "appState \<Rightarrow> string \<Rightarrow> goal option" where
  "getGoal m i = find (\<lambda>g. goal.ident g = i) (appState.goals m)"

definition getActiveGoalsByClient :: "appState \<Rightarrow> string \<Rightarrow> goal list" where
  "getActiveGoalsByClient m cid =
     filter (\<lambda>g. goal.clientId g = cid \<and> goal.status g = Active) (appState.goals m)"

definition addSession ::
  "session \<Rightarrow> bool \<Rightarrow> appState \<times> storage \<Rightarrow> bool \<times> appState \<times> storage" where
  "addSession x ok w =
     (case w of (m, st) \<Rightarrow>
        (case SessionStorage_save x ok st of (success, st') \<Rightarrow>
           (success,
            if success then m\<lparr>appState.sessions := appState.sessions m @ [x]\<rparr> else m,
            st')))"

definition updateSession ::
  "session \<Rightarrow> bool \<Rightarrow> appState \<times> storage \<Rightarrow> bool \<times> appState \<times> storage" where
  "updateSession x ok w =
     (case w of (m, st) \<Rightarrow>
        (case SessionStorage_save x ok st of (success, st') \<Rightarrow>
           (success,
            if success
            then m\<lparr>appState.sessions :=
                     map (\<lambda>y. if session.ident y = session.ident x then x else y)
                       (appState.sessions m)\<rparr>
            else m,
            st')))"

definition deleteSession ::
  "string \<Rightarrow> bool \<Rightarrow> appState \<times> storage \<Rightarrow> bool \<times> appState \<times> storage" where
  "deleteSession i ok w =
     (case w of (m, st) \<Rightarrow>
        (case SessionStorage_delete i ok st of (success, st') \<Rightarrow>
           (success,
            if success
            then m\<lparr>appState.sessions :=
                     filter (\<lambda>x. session.ident x \<noteq> i) (appState.sessions m)\<rparr>
            else m,
            st')))"

definition updateSettings ::
  "appSettings \<Rightarrow> bool \<Rightarrow> appState \<times> storage \<Rightarrow> bool \<times> appState \<times> storage" where
  "updateSettings x ok w =
     (case w of (m, st) \<Rightarrow>
        (case SettingsStorage_save x ok st of (success, st') \<Rightarrow>
           (success, if success then m\<lparr>appState.settings := x\<rparr> else m, st')))"

section \<open>Session recording (screens/NewSessionScreen)\<close>

text \<open>
  The state of the screen, its handlers, and the controls each of its two views offers.
  Generated identifiers and timestamps are arguments of the handlers that take them.
  \<open>trim\<close> is \<open>String.prototype.trim\<close> on ASCII text; \<open>showNat\<close> is the decimal
  rendering of a count inside a template string.
\<close>

record screen =
  selectedGoalIds :: "string list"
  currentGoalIndex :: nat
  trials :: "trial list"
  currentCueLevel :: cueLevel
  prompt :: string
  sessionNotes :: string
  sessionStarted :: bool
  isSaving :: bool

definition isSpace :: "char \<Rightarrow> bool" where
  "isSpace c = (c \<in> set [CHR 0x20, CHR 0x09, CHR 0x0A, CHR 0x0B, CHR 0x0C, CHR 0x0D])"

definition trim :: "string \<Rightarrow> string" where
  "trim s = rev (dropWhile isSpace (rev (dropWhile isSpace s)))"

fun showNat :: "nat \<Rightarrow> string" where
  "showNat n =
     (if n < 10 then [char_of (48 + n)]
      else showNat (n div 10) @ [char_of (48 + n mod 10)])"

definition initialScreen :: "string list option \<Rightarrow> screen" where
  "initialScreen initialGoalIds =
     \<lparr>selectedGoalIds = (case initialGoalIds of None \<Rightarrow> [] | Some ids \<Rightarrow> ids),
      currentGoalIndex = 0, trials = [], currentCueLevel = Independent, prompt = [],
      sessionNotes = [], sessionStarted = False, isSaving = False\<rparr>"

text \<open>
  Reading \<open>selectedGoalIds[currentGoalIndex]\<close> out of range gives \<open>undefined\<close>, which
  is the id of no goal.
\<close>

definition currentGoal :: "appState \<Rightarrow> screen \<Rightarrow> goal option" where
  "currentGoal m s =
     (if selectedGoalIds s = [] then None
      else if currentGoalIndex s < length (selectedGoalIds s)
           then getGoal m (selectedGoalIds s ! currentGoalIndex s)
           else None)"

definition currentGoalTrials :: "appState \<Rightarrow> screen \<Rightarrow> trial list" where
  "currentGoalTrials m s =
     (case currentGoal m s of
        None \<Rightarrow> []
      | Some g \<Rightarrow> filter (\<lambda>t. trial.goalId t = goal.ident g) (screen.trials s))"

definition toggleGoalSelection :: "string \<Rightarrow> screen \<Rightarrow> screen" where
  "toggleGoalSelection gid s =
     s\<lparr>selectedGoalIds :=
         (if gid \<in> set (selectedGoalIds s)
          then filter (\<lambda>i. i \<noteq> gid) (selectedGoalIds s)
          else selectedGoalIds s @ [gid])\<rparr>"

definition handleStartSession :: "screen \<Rightarrow> screen" where
  "handleStartSession s = (if selectedGoalIds s = [] then s else s\<lparr>sessionStarted := True\<rparr>)"

definition handleRecordTrial ::
  "appState \<Rightarrow> response \<Rightarrow> string \<Rightarrow> string \<Rightarrow> screen \<Rightarrow> screen" where
  "handleRecordTrial m r newId now s =
     (case currentGoal m s of
        None \<Rightarrow> s
      | Some g \<Rightarrow>
          (let newTrial =
                 \<lparr>trial.ident = newId, trial.sessionId = [], trial.goalId = goal.ident g,
                  trial.prompt =
                    (if trim (screen.prompt s) = []
                     then ''Trial '' @ showNat (length (currentGoalTrials m s) + 1)
                     else trim (screen.prompt s)),
                  trial.response = r, trial.cueLevel = currentCueLevel s,
                  trial.notes = None, trial.timestamp = now\<rparr>
           in s\<lparr>screen.trials := screen.trials s @ [newTrial], screen.prompt := []\<rparr>))"

definition handleDeleteLastTrial :: "appState \<Rightarrow> screen \<Rightarrow> screen" where
  "handleDeleteLastTrial m s =
     (if currentGoalTrials m s = [] then s
      else s\<lparr>screen.trials :=
               filter (\<lambda>t. trial.ident t \<noteq> trial.ident (last (currentGoalTrials m s)))
                 (screen.trials s)\<rparr>)"

definition handleNextGoal :: "screen \<Rightarrow> screen" where
  "handleNextGoal s =
     (if currentGoalIndex s + 1 < length (selectedGoalIds s)
      then s\<lparr>currentGoalIndex := currentGoalIndex s + 1\<rparr> else s)"

definition handlePrevGoal :: "screen \<Rightarrow> screen" where
  "handlePrevGoal s =
     (if 0 < currentGoalIndex s then s\<lparr>currentGoalIndex := currentGoalIndex s - 1\<rparr> else s)"

text \<open>
  What the user can do. Without the client the screen shows a text and no control. Before
  the session has started it shows the goal selection: one toggle for each active goal of
  the client, and the start button. Afterwards it shows the recording view: prompt, cue
  levels, response buttons, undo, goal navigation and notes. A control that is not shown
  cannot fire, so its event leaves the state as it is.
\<close>

datatype event =
    ToggleGoalSelection string
  | StartSession
  | SetPrompt string
  | SetCurrentCueLevel cueLevel
  | RecordTrial response string string
  | DeleteLastTrial
  | NextGoal
  | PrevGoal
  | SetSessionNotes string

definition handle :: "appState \<Rightarrow> string \<Rightarrow> screen \<Rightarrow> event \<Rightarrow> screen" where
  "handle m cid s ev =
     (if getClient m cid = None then s
      else if \<not> sessionStarted s then
        (case ev of
           ToggleGoalSelection gid \<Rightarrow>
             if gid \<in> set (map goal.ident (getActiveGoalsByClient m cid))
             then toggleGoalSelection gid s else s
         | StartSession \<Rightarrow> handleStartSession s
         | _ \<Rightarrow> s)
      else
        (case ev of
           SetPrompt p \<Rightarrow> s\<lparr>screen.prompt := p\<rparr>
         | SetCurrentCueLevel l \<Rightarrow> s\<lparr>currentCueLevel := l\<rparr>
         | RecordTrial r newId now \<Rightarrow> handleRecordTrial m r newId now s
         | DeleteLastTrial \<Rightarrow> handleDeleteLastTrial m s
         | NextGoal \<Rightarrow> handleNextGoal s
         | PrevGoal \<Rightarrow> handlePrevGoal s
         | SetSessionNotes n \<Rightarrow> s\<lparr>sessionNotes := n\<rparr>
         | _ \<Rightarrow> s))"

text \<open>
  \<open>calculateAndUpdateGoalAccuracy\<close> is a callback of the render in which the end button
  was pressed: \<open>m0\<close> is the mirror and \<open>ts\<close> the trials of that render, while
  \<open>updateGoal\<close> acts on the mirror and the store as they are when it runs. \<open>callerNow\<close>
  is the timestamp the callback puts into the goal, \<open>storeNow\<close> the one \<open>save\<close> takes.
\<close>

definition calculateAndUpdateGoalAccuracy ::
  "appState \<Rightarrow> trial list \<Rightarrow> string \<Rightarrow> string \<times> string \<times> bool \<Rightarrow>
     appState \<times> storage \<Rightarrow> appState \<times> storage" where
  "calculateAndUpdateGoalAccuracy m0 ts gid io w =
     (case io of (callerNow, storeNow, ok) \<Rightarrow>
        (case getGoal m0 gid of
           None \<Rightarrow> w
         | Some g \<Rightarrow>
             (let goalTrials = filter (\<lambda>t. trial.goalId t = gid) ts;
                  stats = calculateSessionStats goalTrials;
                  new = newAccuracy g stats
              in snd (updateGoal
                        (g\<lparr>goal.currentAccuracy := new,
                           goal.status :=
                             (if goal.targetAccuracy g \<le> new then Achieved else goal.status g),
                           goal.updatedAt := callerNow\<rparr>)
                        storeNow ok w))))"

text \<open>
  The loop of \<open>handleEndSession\<close> over the selected goals; \<open>io 0\<close> is what the first
  iteration gets from the clock and the medium, \<open>io 1\<close> the second, and so on.
\<close>

fun updateGoalAccuracies ::
  "appState \<Rightarrow> trial list \<Rightarrow> string list \<Rightarrow> (nat \<Rightarrow> string \<times> string \<times> bool) \<Rightarrow>
     appState \<times> storage \<Rightarrow> appState \<times> storage" where
  "updateGoalAccuracies m0 ts [] io w = w"
| "updateGoalAccuracies m0 ts (gid # gids) io w =
     updateGoalAccuracies m0 ts gids (\<lambda>i. io (Suc i))
       (calculateAndUpdateGoalAccuracy m0 ts gid (io 0) w)"

text \<open>
  \<open>handleEndSession\<close> answers here with the session it saved, if it saved one, the state
  of the screen, and the mirror and the store.
\<close>

definition handleEndSession ::
  "string \<Rightarrow> screen \<Rightarrow> string \<Rightarrow> string \<Rightarrow> string \<Rightarrow> bool \<Rightarrow>
     (nat \<Rightarrow> string \<times> string \<times> bool) \<Rightarrow> appState \<times> storage \<Rightarrow>
     session option \<times> screen \<times> appState \<times> storage" where
  "handleEndSession cid s newId dateNow createdNow okSession io w =
     (if screen.trials s = [] then (None, s, w)
      else
        (let sessionTrials = map (\<lambda>t. t\<lparr>trial.sessionId := newId\<rparr>) (screen.trials s);
             x = \<lparr>session.ident = newId, session.clientId = cid, session.date = dateNow,
                  session.duration = 30,
                  session.notes =
                    (if trim (sessionNotes s) = [] then None else Some (trim (sessionNotes s))),
                  session.goals = selectedGoalIds s, session.trials = sessionTrials,
                  session.createdAt = createdNow\<rparr>
         in case addSession x okSession w of
              (success, w') \<Rightarrow>
                if success
                then (Some x, s\<lparr>isSaving := True\<rparr>,
                      updateGoalAccuracies (fst w) (screen.trials s) (selectedGoalIds s) io w')
                else (None, s\<lparr>isSaving := False\<rparr>, w')))"

section \<open>Concrete data\<close>

text \<open>Small values of each entity, for the concrete instances of the theorems below.\<close>

definition exClient :: "string \<Rightarrow> string \<Rightarrow> client" where
  "exClient i u =
     \<lparr>client.ident = i, client.firstName = ''Ada'', client.lastName = ''Byron'',
      client.dateOfBirth = ''2015-12-10'', client.diagnosis = None, client.notes = None,
      client.createdAt = ''2024-01-01T09:00:00.000Z'', client.updatedAt = u,
      client.isActive = True\<rparr>"

definition exGoal :: "string \<Rightarrow> string \<Rightarrow> goalStatus \<Rightarrow> goal" where
  "exGoal i cid st =
     \<lparr>goal.ident = i, goal.clientId = cid, goal.name = ''Initial /r/'',
      goal.description = ''Produce /r/ in words'', goal.targetAccuracy = 80,
      goal.currentAccuracy = 60, goal.targetDate = None, goal.status = st,
      goal.category = Articulation, goal.createdAt = ''2024-01-01T09:05:00.000Z'',
      goal.updatedAt = ''2024-01-01T09:05:00.000Z''\<rparr>"

definition exSession :: "string \<Rightarrow> string \<Rightarrow> session" where
  "exSession i cid =
     \<lparr>session.ident = i, session.clientId = cid, session.date = ''2024-01-02T10:00:00.000Z'',
      session.duration = 30, session.notes = None, session.goals = [''g1''],
      session.trials = [trialWith Correct], session.createdAt = ''2024-01-02T10:30:00.000Z''\<rparr>"

definition exStorage :: storage where
  "exStorage =
     \<lparr>CLIENTS = Some [exClient ''c1'' ''2024-01-01T09:00:00.000Z'',
                       exClient ''c2'' ''2024-01-01T09:00:00.000Z''],
      GOALS = Some [exGoal ''g1'' ''c1'' Discontinued, exGoal ''g2'' ''c2'' Active],
      SESSIONS = Some [exSession ''s1'' ''c1'', exSession ''s2'' ''c2''],
      SETTINGS = None\<rparr>"

definition exEvents :: "event list" where
  "exEvents =
     [StartSession,
      RecordTrial Correct ''t1'' ''2024-01-03T10:00:00.000Z'',
      RecordTrial Correct ''t2'' ''2024-01-03T10:01:00.000Z'']"

definition exIo :: "nat \<Rightarrow> string \<times> string \<times> bool" where
  "exIo i = (''2024-01-03T10:30:00.000Z'', ''2024-01-03T10:30:00.005Z'', True)"

section \<open>Rounding to binary64\<close>

lemma roundTiesToEven_le: "x \<le> of_int m \<Longrightarrow> roundTiesToEven x \<le> m"
proof -
  assume h: "x \<le> of_int m"
  have f: "\<lfloor>x\<rfloor> \<le> m" using h by (simp add: floor_le_iff)
  show ?thesis
  proof (cases "\<lfloor>x\<rfloor> = m")
    case True
    then have "x - of_int \<lfloor>x\<rfloor> \<le> 0" using h by simp
    then show ?thesis using True by (simp add: roundTiesToEven_def Let_def)
  next
    case False
    then have "\<lfloor>x\<rfloor> + 1 \<le> m" using f by simp
    then show ?thesis by (simp add: roundTiesToEven_def Let_def)
  qed
qed

lemma roundTiesToEven_nonneg: "0 \<le> x \<Longrightarrow> 0 \<le> roundTiesToEven x"
  by (simp add: roundTiesToEven_def Let_def)

lemma roundTiesToEven_of_int: "roundTiesToEven (of_int k) = k"
  by (simp add: roundTiesToEven_def Let_def)

text \<open>The exponent found by \<open>ilog2\<close> is not above the binary logarithm.\<close>

lemma ilog2_lower:
  assumes "0 < x"
  shows "2 powi (ilog2 x) \<le> x"
proof -
  obtain p q where pq: "quotient_of x = (p, q)" by (cases "quotient_of x")
  have q: "0 < q" using pq quotient_of_denom_pos by blast
  have x: "x = of_int p / of_int q" using pq quotient_of_div by blast
  have p: "0 < p" using assms q x by (simp add: zero_less_divide_iff)
  define d where "d = bitlen p - bitlen q"
  show ?thesis
  proof (cases "2 powi d \<le> x")
    case True
    then have "ilog2 x = d" by (simp add: ilog2_def pq d_def)
    then show ?thesis using True by simp
  next
    case False
    then have il: "ilog2 x = d - 1" by (simp add: ilog2_def pq d_def)
    have bp: "1 \<le> bitlen p" using p bitlen_eq_zero_iff[of p] bitlen_nonneg[of p] by linarith
    have bq: "1 \<le> bitlen q" using q bitlen_eq_zero_iff[of q] bitlen_nonneg[of q] by linarith
    have lo: "(2::rat) powi (bitlen p - 1) \<le> of_int p"
    proof -
      have "2 ^ nat (bitlen p - 1) \<le> p" using bitlen_bounds[OF p] by simp
      then have "(of_int (2 ^ nat (bitlen p - 1)) :: rat) \<le> of_int p"
        by (simp only: of_int_le_iff)
      then show ?thesis using bp by (simp add: power_int_def)
    qed
    have hi: "(of_int q :: rat) \<le> 2 powi (bitlen q)"
    proof -
      have "q < 2 ^ nat (bitlen q)" using bitlen_bounds[OF q] by simp
      then have "(of_int q :: rat) < of_int (2 ^ nat (bitlen q))"
        by (simp only: of_int_less_iff)
      then show ?thesis using bq by (simp add: power_int_def)
    qed
    have "(2::rat) powi (d - 1) = 2 powi (bitlen p - 1) / 2 powi (bitlen q)"
      by (simp add: power_int_diff d_def)
    also have "\<dots> \<le> of_int p / 2 powi (bitlen q)"
      using lo by (simp add: divide_right_mono)
    also have "\<dots> \<le> of_int p / of_int q"
      using hi p q by (simp add: frac_le)
    finally have "2 powi (d - 1) \<le> x" unfolding x .
    then show ?thesis by (simp only: il)
  qed
qed

lemma ilog2_upper:
  assumes "0 < x"
  shows "x < 2 powi (ilog2 x + 1)"
proof -
  obtain p q where pq: "quotient_of x = (p, q)" by (cases "quotient_of x")
  have q: "0 < q" using pq quotient_of_denom_pos by blast
  have x: "x = of_int p / of_int q" using pq quotient_of_div by blast
  have p: "0 < p" using assms q x by (simp add: zero_less_divide_iff)
  define d where "d = bitlen p - bitlen q"
  show ?thesis
  proof (cases "2 powi d \<le> x")
    case False
    then have "ilog2 x = d - 1" by (simp add: ilog2_def pq d_def)
    then show ?thesis using False by simp
  next
    case True
    then have il: "ilog2 x = d" by (simp add: ilog2_def pq d_def)
    have bq: "1 \<le> bitlen q" using q bitlen_eq_zero_iff[of q] bitlen_nonneg[of q] by linarith
    have hi: "(of_int p :: rat) < 2 powi (bitlen p)"
    proof -
      have "p < 2 ^ nat (bitlen p)" using bitlen_bounds[OF p] by simp
      then have "(of_int p :: rat) < of_int (2 ^ nat (bitlen p))"
        by (simp only: of_int_less_iff)
      then show ?thesis using bitlen_nonneg[of p] by (simp add: power_int_def)
    qed
    have lo: "(2::rat) powi (bitlen q - 1) \<le> of_int q"
    proof -
      have "2 ^ nat (bitlen q - 1) \<le> q" using bitlen_bounds[OF q] by simp
      then have "(of_int (2 ^ nat (bitlen q - 1)) :: rat) \<le> of_int q"
        by (simp only: of_int_le_iff)
      then show ?thesis using bq by (simp add: power_int_def)
    qed
    have "of_int p / of_int q < 2 powi (bitlen p) / (of_int q :: rat)"
      using hi q by (simp add: divide_strict_right_mono)
    also have "\<dots> \<le> 2 powi (bitlen p) / 2 powi (bitlen q - 1)"
      using lo q by (intro divide_left_mono) simp_all
    also have "\<dots> = 2 powi (d + 1)"
      by (simp add: power_int_diff power_int_add d_def)
    finally have "x < 2 powi (d + 1)" unfolding x .
    then show ?thesis by (simp only: il)
  qed
qed

text \<open>The significand that \<open>double\<close> rounds lies in \<open>[2^52, 2^53)\<close>.\<close>

lemma double_significand:
  assumes "0 < x"
  shows "2 ^ 52 \<le> x / 2 powi (ilog2 x - 52) \<and> x / 2 powi (ilog2 x - 52) < 2 ^ 53"
proof -
  have P: "(0::rat) < 2 powi (ilog2 x - 52)" by simp
  have a: "(2::rat) powi (ilog2 x) = 2 ^ 52 * 2 powi (ilog2 x - 52)"
    by (simp add: power_int_diff)
  have b: "(2::rat) powi (ilog2 x + 1) = 2 ^ 53 * 2 powi (ilog2 x - 52)"
    by (simp add: power_int_diff power_int_add)
  have "2 ^ 52 * 2 powi (ilog2 x - 52) \<le> x" using ilog2_lower[OF assms] a by simp
  moreover have "x < 2 ^ 53 * 2 powi (ilog2 x - 52)" using ilog2_upper[OF assms] b by simp
  ultimately show ?thesis using P by (simp add: pos_le_divide_eq pos_divide_less_eq)
qed

lemma ilog2_less:
  assumes "0 < x" "x < 2 powi k"
  shows "ilog2 x < k"
proof (rule ccontr)
  assume "\<not> ilog2 x < k"
  then have "k \<le> ilog2 x" by simp
  then have "(2::rat) powi k \<le> 2 powi (ilog2 x)" by (simp add: power_int_increasing)
  then show False using ilog2_lower[OF assms(1)] assms(2) by linarith
qed

lemma double_nonneg: "0 \<le> x \<Longrightarrow> 0 \<le> double x"
  by (auto simp: double_def Let_def intro!: mult_nonneg_nonneg roundTiesToEven_nonneg)

text \<open>Rounding does not cross an integer below \<open>2^53\<close>: such an integer is a binary64 value.\<close>

lemma double_le_int:
  assumes "0 < x" "x \<le> of_int n" "n < 2 ^ 53"
  shows "double x \<le> of_int n"
proof -
  define e where "e = ilog2 \<bar>x\<bar> - 52"
  have "(of_int n :: rat) < of_int (2 ^ 53)" using assms(3) by (simp only: of_int_less_iff)
  then have "x < 2 powi 53" using assms(2) by simp
  then have e: "e \<le> 0" using ilog2_less[OF assms(1), of 53] assms(1) by (simp add: e_def)
  have pe: "(2::rat) powi e = 1 / 2 ^ nat (- e)"
    using e by (simp add: power_int_def field_simps)
  have "x / 2 powi e = x * 2 ^ nat (- e)" by (simp add: pe)
  also have "\<dots> \<le> of_int n * 2 ^ nat (- e)" using assms(2) by simp
  also have "\<dots> = of_int (n * 2 ^ nat (- e))" by simp
  finally have "roundTiesToEven (x / 2 powi e) \<le> n * 2 ^ nat (- e)"
    by (rule roundTiesToEven_le)
  then have "(of_int (roundTiesToEven (x / 2 powi e)) :: rat) \<le> of_int (n * 2 ^ nat (- e))"
    by (simp only: of_int_le_iff)
  then have "of_int (roundTiesToEven (x / 2 powi e)) * (2::rat) powi e
      \<le> of_int (n * 2 ^ nat (- e)) * 2 powi e"
    by (rule mult_right_mono) simp
  also have "\<dots> = of_int n" by (simp add: pe)
  finally show ?thesis using assms(1) by (simp add: double_def Let_def e_def)
qed

lemma double_range:
  assumes "0 \<le> x" "x \<le> of_int n" "n < 2 ^ 53"
  shows "0 \<le> double x \<and> double x \<le> of_int n"
proof (cases "x = 0")
  case True
  then show ?thesis using assms by (simp add: double_def)
next
  case False
  then have "0 < x" using assms(1) by simp
  then show ?thesis using double_le_int[OF _ assms(2,3)] double_nonneg[OF assms(1)] by simp
qed

text \<open>Halves of integers below \<open>2^53\<close> in magnitude are binary64 values.\<close>

lemma double_half_int:
  assumes "\<bar>n\<bar> < 2 ^ 53"
  shows "double (of_int n / 2) = of_int n / 2"
proof (cases "n = 0")
  case True then show ?thesis by (simp add: double_def)
next
  case False
  define x :: rat where "x = of_int n / 2"
  define e where "e = ilog2 \<bar>x\<bar> - 52"
  have ax: "\<bar>x\<bar> = of_int \<bar>n\<bar> / 2" by (simp add: x_def)
  have x0: "x \<noteq> 0" using False by (simp add: x_def)
  have pos: "0 < \<bar>x\<bar>" using x0 by simp
  have "(of_int \<bar>n\<bar> :: rat) < of_int (2 ^ 53)" using assms by (simp only: of_int_less_iff)
  then have "\<bar>x\<bar> < 2 powi 52" unfolding ax by simp
  then have e: "e < 0" using ilog2_less[OF pos, of 52] by (simp add: e_def)
  have pe: "(2::rat) powi e = 1 / (2 * 2 ^ nat (- e - 1))"
  proof -
    have "nat (- e) = Suc (nat (- e - 1))" using e by simp
    then have "(2::rat) ^ nat (- e) = 2 * 2 ^ nat (- e - 1)" by simp
    then show ?thesis using e by (simp add: power_int_def field_simps)
  qed
  have "\<bar>x\<bar> / 2 powi e = of_int (\<bar>n\<bar> * 2 ^ nat (- e - 1))"
    unfolding ax pe by simp
  then have r: "roundTiesToEven (\<bar>x\<bar> / 2 powi e) = \<bar>n\<bar> * 2 ^ nat (- e - 1)"
    by (simp only: roundTiesToEven_of_int)
  have "double x = sgn x * of_int (\<bar>n\<bar> * 2 ^ nat (- e - 1)) * 2 powi e"
    using x0 r by (simp add: double_def Let_def e_def)
  also have "\<dots> = sgn x * \<bar>x\<bar>" unfolding pe ax by simp
  also have "\<dots> = x" by (simp only: sgn_mult_abs)
  finally show ?thesis by (simp add: x_def)
qed

lemma double_of_int:
  assumes "\<bar>n\<bar> < 2 ^ 52"
  shows "double (of_int n) = of_int n"
proof -
  have "\<bar>2 * n\<bar> < 2 ^ 53" using assms by simp
  then have "double (of_int (2 * n) / 2) = of_int (2 * n) / 2" by (rule double_half_int)
  then show ?thesis by simp
qed

lemma Math_round_range:
  "0 \<le> x \<Longrightarrow> x \<le> of_int n \<Longrightarrow> 0 \<le> Math_round x \<and> Math_round x \<le> n"
  unfolding Math_round_def by (simp add: floor_le_iff le_floor_iff)

text \<open>The relative error of one rounding is at most \<open>2^-53\<close>.\<close>

lemma roundTiesToEven_error: "\<bar>of_int (roundTiesToEven s) - s\<bar> \<le> 1 / 2"
proof -
  have "of_int \<lfloor>s\<rfloor> \<le> s" "s < of_int \<lfloor>s\<rfloor> + 1" by linarith+
  then show ?thesis by (auto simp: roundTiesToEven_def Let_def abs_le_iff)
qed

lemma double_error:
  assumes "0 < x"
  shows "\<bar>double x - x\<bar> \<le> x / 2 ^ 53"
proof -
  define e where "e = ilog2 x - 52"
  define P :: rat where "P = 2 powi e"
  have P: "0 < P" by (simp add: P_def)
  have "2 powi (ilog2 x) \<le> x" using assms by (rule ilog2_lower)
  moreover have "(2::rat) powi (ilog2 x) = P * 2 ^ 52"
    by (simp add: P_def e_def power_int_diff)
  ultimately have lo: "P * 2 ^ 52 \<le> x" by simp
  have d: "double x = of_int (roundTiesToEven (x / P)) * P"
    using assms by (simp add: double_def Let_def e_def P_def)
  have "double x - x = (of_int (roundTiesToEven (x / P)) - x / P) * P"
    using P by (simp add: d field_simps)
  then have "\<bar>double x - x\<bar> = \<bar>of_int (roundTiesToEven (x / P)) - x / P\<bar> * P"
    using P by (simp add: abs_mult)
  also have "\<dots> \<le> (1 / 2) * P"
    using roundTiesToEven_error[of "x / P"] P by (intro mult_right_mono) simp_all
  also have "\<dots> \<le> x / 2 ^ 53" using lo by (simp add: field_simps)
  finally show ?thesis .
qed

lemma floor_near:
  fixes u d :: rat and k :: int
  assumes "of_int k + g \<le> u" "u + g \<le> of_int k + 1" "\<bar>d\<bar> < g"
  shows "\<lfloor>u + d\<rfloor> = k"
proof -
  have "of_int k \<le> u + d" "u + d < of_int k + 1" using assms by (auto simp: abs_less_iff)
  then show ?thesis by (simp add: floor_unique)
qed

lemma floor_near_int:
  fixes d :: rat and k :: int
  assumes "\<bar>d\<bar> < 1"
  shows "\<lfloor>of_int k + d\<rfloor> = k \<or> \<lfloor>of_int k + d\<rfloor> = k - 1"
proof (cases "0 \<le> d")
  case True
  then have "\<lfloor>of_int k + d\<rfloor> = k" using assms by (intro floor_unique) auto
  then show ?thesis by simp
next
  case False
  then have "\<lfloor>of_int k + d\<rfloor> = k - 1" using assms by (intro floor_unique) auto
  then show ?thesis by simp
qed

section \<open>Aggregator: session statistics\<close>

lemma accuracy_bounds:
  "0 \<le> accuracy (calculateSessionStats ts) \<and> accuracy (calculateSessionStats ts) \<le> 100"
proof (cases "ts = []")
  case True
  then show ?thesis by (simp add: calculateSessionStats_def)
next
  case False
  define c where "c = length (filter (\<lambda>t. response t = Correct) ts)"
  define q :: rat where "q = of_nat c / of_nat (length ts)"
  have len: "0 < length ts" using False by simp
  have cle: "c \<le> length ts" by (simp add: c_def)
  have q0: "0 \<le> q" by (simp add: q_def)
  have q1: "q \<le> of_int 1" using cle len by (simp add: q_def)
  have d1: "0 \<le> double q \<and> double q \<le> of_int 1"
    using q0 q1 by (rule double_range) simp
  have p0: "0 \<le> double q * 100" using d1 by simp
  have p1: "double q * 100 \<le> of_int 100" using d1 by simp
  have d2: "0 \<le> double (double q * 100) \<and> double (double q * 100) \<le> of_int 100"
    using p0 p1 by (rule double_range) simp
  have "0 \<le> Math_round (double (double q * 100))
      \<and> Math_round (double (double q * 100)) \<le> 100"
    using d2 by (intro Math_round_range) simp_all
  then show ?thesis using len by (simp add: calculateSessionStats_def Let_def q_def c_def)
qed

text \<open>
  The sum and the halving of two percentages are exact in binary64, so the new accuracy of
  a goal is the half-up rounding of their mean.
\<close>

lemma newAccuracy_exact:
  assumes "\<bar>currentAccuracy g + accuracy stats\<bar> < 2 ^ 52"
  shows "newAccuracy g stats = (currentAccuracy g + accuracy stats + 1) div 2"
proof -
  define n where "n = currentAccuracy g + accuracy stats"
  have s: "(of_int (currentAccuracy g) + of_int (accuracy stats) :: rat) = of_int n"
    by (simp add: n_def)
  have a: "\<bar>n\<bar> < 2 ^ 52" using assms by (simp add: n_def)
  then have d: "double (of_int n) = of_int n" by (rule double_of_int)
  have "\<bar>n\<bar> < 2 ^ 53" using a by simp
  then have h: "double (of_int n / 2) = of_int n / 2" by (rule double_half_int)
  have "newAccuracy g stats = \<lfloor>(of_int n / 2 :: rat) + 1 / 2\<rfloor>"
    by (simp add: newAccuracy_def Math_round_def s d h)
  also have "(of_int n / 2 :: rat) + 1 / 2 = of_int (n + 1) / of_int 2" by simp
  also have "\<lfloor>(of_int (n + 1) / of_int 2 :: rat)\<rfloor> = (n + 1) div 2"
    by (rule floor_divide_of_int_eq)
  finally show ?thesis by (simp add: n_def)
qed

lemma newAccuracy_bounds:
  assumes "0 \<le> currentAccuracy g" "currentAccuracy g \<le> 100"
    "0 \<le> accuracy stats" "accuracy stats \<le> 100"
  shows "0 \<le> newAccuracy g stats \<and> newAccuracy g stats \<le> 100"
proof -
  have "\<bar>currentAccuracy g + accuracy stats\<bar> < 2 ^ 52" using assms by simp
  then have "newAccuracy g stats = (currentAccuracy g + accuracy stats + 1) div 2"
    by (rule newAccuracy_exact)
  then show ?thesis using assms by simp
qed

lemma calculateSessionStats_counts:
  "totalTrials (calculateSessionStats ts) = length ts
   \<and> correctTrials (calculateSessionStats ts) = length (filter (\<lambda>t. response t = Correct) ts)
   \<and> incorrectTrials (calculateSessionStats ts)
       = length (filter (\<lambda>t. response t = Incorrect) ts)
   \<and> approximationTrials (calculateSessionStats ts)
       = length (filter (\<lambda>t. response t = Approximation) ts)
   \<and> noResponseTrials (calculateSessionStats ts)
       = length (filter (\<lambda>t. response t = No_response) ts)
   \<and> correctTrials (calculateSessionStats ts) + incorrectTrials (calculateSessionStats ts)
       + approximationTrials (calculateSessionStats ts)
       + noResponseTrials (calculateSessionStats ts) = totalTrials (calculateSessionStats ts)
   \<and> accuracy (calculateSessionStats []) = 0"
proof -
  have "length (filter (\<lambda>t. response t = Correct) ts)
      + length (filter (\<lambda>t. response t = Incorrect) ts)
      + length (filter (\<lambda>t. response t = Approximation) ts)
      + length (filter (\<lambda>t. response t = No_response) ts) = length ts"
  proof (induction ts)
    case Nil
    then show ?case by simp
  next
    case (Cons t ts)
    then show ?case by (cases "response t") simp_all
  qed
  then show ?thesis by (simp add: calculateSessionStats_def Let_def)
qed

lemma percent_error:
  fixes c t :: nat
  assumes "0 < c" "c \<le> t"
  shows "\<bar>double (double (of_nat c / of_nat t) * 100) - 100 * of_nat c / of_nat t\<bar>
           \<le> 200 / 2 ^ 53"
proof -
  define q :: rat where "q = of_nat c / of_nat t"
  have t: "0 < t" using assms by simp
  have q0: "0 < q" using assms t by (simp add: q_def)
  have q1: "q \<le> of_int 1" using assms t by (simp add: q_def)
  have e1: "\<bar>double q - q\<bar> \<le> q / 2 ^ 53" using q0 by (rule double_error)
  have d1: "double q \<le> of_int 1" using q0 q1 by (rule double_le_int) simp
  have "q / 2 ^ 53 < q" using q0 by (simp add: field_simps)
  then have d0: "0 < double q" using e1 by linarith
  have p0: "0 < double q * 100" using d0 by simp
  have e2: "\<bar>double (double q * 100) - double q * 100\<bar> \<le> double q * 100 / 2 ^ 53"
    using p0 by (rule double_error)
  have "double q * 100 / 2 ^ 53 \<le> 100 / 2 ^ 53" using d1 by simp
  then have a: "\<bar>double (double q * 100) - double q * 100\<bar> \<le> 100 / 2 ^ 53"
    using e2 by linarith
  have "\<bar>double q * 100 - 100 * q\<bar> = \<bar>double q - q\<bar> * 100"
    by (simp add: abs_if field_simps)
  also have "\<dots> \<le> q / 2 ^ 53 * 100" using e1 by simp
  also have "\<dots> \<le> 100 / 2 ^ 53" using q1 by simp
  finally have b: "\<bar>double q * 100 - 100 * q\<bar> \<le> 100 / 2 ^ 53" .
  have "\<bar>double (double q * 100) - 100 * q\<bar> \<le> 100 / 2 ^ 53 + 100 / 2 ^ 53"
    using a b by linarith
  then have "\<bar>double (double q * 100) - 100 * q\<bar> \<le> 200 / 2 ^ 53" by simp
  then show ?thesis by (simp add: q_def)
qed

lemma percent_round:
  fixes c t :: nat
  assumes "0 < t" "c \<le> t" "t < 2 ^ 44"
  shows "\<bar>of_int (Math_round (double (double (of_nat c / of_nat t) * 100)))
           - 100 * of_nat c / of_nat t\<bar> \<le> (1 / 2 :: rat)
    \<and> ((200 * c + t) mod (2 * t) \<noteq> 0 \<longrightarrow>
         Math_round (double (double (of_nat c / of_nat t) * 100))
           = Math_round (100 * of_nat c / of_nat t))"
proof (cases "c = 0")
  case True
  have "\<lfloor>(1 / 2 :: rat)\<rfloor> = 0" by (rule floor_unique) simp_all
  then show ?thesis using True by (simp add: double_def Math_round_def)
next
  case False
  define E :: rat where "E = 100 * of_nat c / of_nat t"
  define r where "r = double (double (of_nat c / of_nat t) * 100)"
  define d where "d = r - E"
  define M where "M = int (200 * c + t)"
  define D where "D = int (2 * t)"
  define k where "k = M div D"
  define j where "j = M mod D"
  define u :: rat where "u = E + 1 / 2"
  have D: "0 < D" "D < 2 ^ 45" using assms(1,3) by (simp_all add: D_def)
  have j: "0 \<le> j" "j < D" using D by (simp_all add: j_def)
  have "\<bar>d\<bar> \<le> 200 / 2 ^ 53"
    unfolding d_def r_def E_def using False assms(2) by (intro percent_error) simp_all
  moreover have "(200 / 2 ^ 53 :: rat) < 1 / 2 ^ 45" by simp
  moreover have "(1 / 2 ^ 45 :: rat) < 1 / of_int D"
  proof -
    have "(of_int D :: rat) < of_int (2 ^ 45)" using D(2) by (simp only: of_int_less_iff)
    then show ?thesis using D(1) by (simp add: field_simps)
  qed
  ultimately have dg: "\<bar>d\<bar> < 1 / of_int D" by linarith
  have uMD: "u = of_int M / of_int D"
    using assms(1) by (simp add: u_def E_def M_def D_def field_simps)
  have "M = D * k + j" by (simp add: k_def j_def)
  then have "(of_int M :: rat) = of_int D * of_int k + of_int j"
    by (metis of_int_add of_int_mult)
  then have ukj: "u = of_int k + of_int j / of_int D"
    using D(1) by (simp add: uMD field_simps)
  have fu: "Math_round E = k"
    unfolding Math_round_def u_def[symmetric] uMD k_def by (rule floor_divide_of_int_eq)
  have "u + d = r + 1 / 2" by (simp add: u_def d_def)
  then have fr: "Math_round r = \<lfloor>u + d\<rfloor>"
    by (simp only: Math_round_def)
  have jD: "0 \<le> of_int j / (of_int D :: rat)" "of_int j / (of_int D :: rat) < 1"
    using j D(1) by simp_all
  show ?thesis
  proof (cases "j = 0")
    case True
    then have "u = of_int k" using ukj by simp
    moreover have "1 / (of_int D :: rat) \<le> 1" using D(1) by simp
    then have "\<bar>d\<bar> < 1" using dg by linarith
    ultimately have "Math_round r = k \<or> Math_round r = k - 1"
      using floor_near_int[of d k] fr by simp
    moreover have "E = of_int k - 1 / 2" using \<open>u = of_int k\<close> by (simp add: u_def)
    moreover have "(200 * c + t) mod (2 * t) = 0"
      using True by (simp add: j_def M_def D_def zmod_int[symmetric] del: of_nat_add of_nat_mult)
    ultimately show ?thesis unfolding r_def[symmetric] E_def[symmetric] by auto
  next
    case False
    then have "1 \<le> j" "j \<le> D - 1" using j by simp_all
    then have "(of_int 1 :: rat) \<le> of_int j" "(of_int j :: rat) \<le> of_int (D - 1)"
      by (simp_all only: of_int_le_iff)
    then have "1 / of_int D \<le> of_int j / (of_int D :: rat)"
      "of_int j / (of_int D :: rat) \<le> (of_int D - 1) / of_int D"
      using D(1) by (simp_all add: divide_right_mono)
    moreover have "(of_int D - 1) / (of_int D :: rat) = 1 - 1 / of_int D"
      using D(1) by (simp add: field_simps)
    ultimately have "of_int k + 1 / of_int D \<le> u" "u + 1 / of_int D \<le> of_int k + 1"
      using ukj by simp_all
    then have "\<lfloor>u + d\<rfloor> = k" using dg by (rule floor_near)
    then have A: "Math_round r = k" using fr by simp
    have "of_int k \<le> u" "u < of_int k + 1" using ukj jD by simp_all
    then have "\<bar>of_int k - E\<bar> \<le> 1 / 2" unfolding u_def by linarith
    then show ?thesis unfolding r_def[symmetric] E_def[symmetric] using A fu by simp
  qed
qed


lemma example_stats:
  "calculateSessionStats [trialWith Correct, trialWith Correct, trialWith Incorrect] =
     \<lparr>totalTrials = 3, correctTrials = 2, incorrectTrials = 1, approximationTrials = 0,
      noResponseTrials = 0, accuracy = 67\<rparr>
   \<and> calculateSessionStats [] =
     \<lparr>totalTrials = 0, correctTrials = 0, incorrectTrials = 0, approximationTrials = 0,
      noResponseTrials = 0, accuracy = 0\<rparr>"
  by code_simp

text \<open>
  C1, as stated, fails. The accuracy is the rounding of the binary64 product
  \<open>(correct / total) * 100\<close>, not of the exact percentage. With 23 correct trials out of
  40 the percentage is 57.5, which rounds to 58 half-up and also to 58 ties-to-even; the
  quotient 23/40 is rounded down to binary64, its product with 100 is rounded to
  \<open>57.49999999999999\<close>, and the accuracy returned is 57.
\<close>

theorem calculateSessionStats_23_of_40:
  "calculateSessionStats (replicate 23 (trialWith Correct) @ replicate 17 (trialWith Incorrect)) =
     \<lparr>totalTrials = 40, correctTrials = 23, incorrectTrials = 17, approximationTrials = 0,
      noResponseTrials = 0, accuracy = 57\<rparr>
   \<and> Math_round (100 * 23 / 40) = 58 \<and> roundTiesToEven (100 * 23 / 40) = 58"
  by code_simp

text \<open>
  C1, amended. \<open>totalTrials\<close> is the length of the sequence, the four counts are the
  numbers of trials of each response and sum to \<open>totalTrials\<close>. The accuracy is 0 on the
  empty sequence. On a non-empty one (of less than \<open>2^44\<close> trials) it is an integer
  within one half of the percentage \<open>100 * correct / total\<close>, and it is the half-up
  rounding of that percentage unless the percentage lies exactly halfway between two
  integers, where either neighbour may come out. Three trials correct, correct, incorrect
  give 3, 2, 1 and 67.
\<close>

theorem calculateSessionStats_result:
  "totalTrials (calculateSessionStats ts) = length ts
   \<and> correctTrials (calculateSessionStats ts) = length (filter (\<lambda>t. response t = Correct) ts)
   \<and> incorrectTrials (calculateSessionStats ts)
       = length (filter (\<lambda>t. response t = Incorrect) ts)
   \<and> approximationTrials (calculateSessionStats ts)
       = length (filter (\<lambda>t. response t = Approximation) ts)
   \<and> noResponseTrials (calculateSessionStats ts)
       = length (filter (\<lambda>t. response t = No_response) ts)
   \<and> correctTrials (calculateSessionStats ts) + incorrectTrials (calculateSessionStats ts)
       + approximationTrials (calculateSessionStats ts)
       + noResponseTrials (calculateSessionStats ts) = totalTrials (calculateSessionStats ts)
   \<and> (ts = [] \<longrightarrow> accuracy (calculateSessionStats ts) = 0)
   \<and> (ts \<noteq> [] \<and> length ts < 2 ^ 44 \<longrightarrow>
        \<bar>of_int (accuracy (calculateSessionStats ts))
           - 100 * of_nat (correctTrials (calculateSessionStats ts))
               / of_nat (totalTrials (calculateSessionStats ts))\<bar> \<le> (1 / 2 :: rat)
        \<and> ((200 * correctTrials (calculateSessionStats ts)
               + totalTrials (calculateSessionStats ts))
              mod (2 * totalTrials (calculateSessionStats ts)) \<noteq> 0 \<longrightarrow>
            accuracy (calculateSessionStats ts)
              = Math_round (100 * of_nat (correctTrials (calculateSessionStats ts))
                              / of_nat (totalTrials (calculateSessionStats ts)))))
   \<and> calculateSessionStats [trialWith Correct, trialWith Correct, trialWith Incorrect] =
       \<lparr>totalTrials = 3, correctTrials = 2, incorrectTrials = 1, approximationTrials = 0,
        noResponseTrials = 0, accuracy = 67\<rparr>
   \<and> calculateSessionStats [] =
       \<lparr>totalTrials = 0, correctTrials = 0, incorrectTrials = 0, approximationTrials = 0,
        noResponseTrials = 0, accuracy = 0\<rparr>"
proof -
  define c where "c = length (filter (\<lambda>t. response t = Correct) ts)"
  have acc: "ts \<noteq> [] \<Longrightarrow> accuracy (calculateSessionStats ts)
      = Math_round (double (double (of_nat c / of_nat (length ts)) * 100))"
    by (simp add: calculateSessionStats_def Let_def c_def)
  have cs: "correctTrials (calculateSessionStats ts) = c"
    "totalTrials (calculateSessionStats ts) = length ts"
    by (simp_all add: calculateSessionStats_def Let_def c_def)
  have cle: "c \<le> length ts" by (simp add: c_def)
  have near: "ts \<noteq> [] \<and> length ts < 2 ^ 44 \<longrightarrow>
        \<bar>of_int (accuracy (calculateSessionStats ts))
           - 100 * of_nat (correctTrials (calculateSessionStats ts))
               / of_nat (totalTrials (calculateSessionStats ts))\<bar> \<le> (1 / 2 :: rat)
        \<and> ((200 * correctTrials (calculateSessionStats ts)
               + totalTrials (calculateSessionStats ts))
              mod (2 * totalTrials (calculateSessionStats ts)) \<noteq> 0 \<longrightarrow>
            accuracy (calculateSessionStats ts)
              = Math_round (100 * of_nat (correctTrials (calculateSessionStats ts))
                              / of_nat (totalTrials (calculateSessionStats ts))))"
  proof
    assume h: "ts \<noteq> [] \<and> length ts < 2 ^ 44"
    then have ne: "ts \<noteq> []" and l: "length ts < 2 ^ 44" and p: "0 < length ts"
      by simp_all
    from percent_round[OF p cle l] show "\<bar>of_int (accuracy (calculateSessionStats ts))
           - 100 * of_nat (correctTrials (calculateSessionStats ts))
               / of_nat (totalTrials (calculateSessionStats ts))\<bar> \<le> (1 / 2 :: rat)
        \<and> ((200 * correctTrials (calculateSessionStats ts)
               + totalTrials (calculateSessionStats ts))
              mod (2 * totalTrials (calculateSessionStats ts)) \<noteq> 0 \<longrightarrow>
            accuracy (calculateSessionStats ts)
              = Math_round (100 * of_nat (correctTrials (calculateSessionStats ts))
                              / of_nat (totalTrials (calculateSessionStats ts))))"
      unfolding cs acc[OF ne] .
  qed
  have empty: "ts = [] \<longrightarrow> accuracy (calculateSessionStats ts) = 0"
    by (simp add: calculateSessionStats_def)
  show ?thesis
    using calculateSessionStats_counts[of ts] near empty example_stats by blast
qed

theorem calculateSessionStats_result_witness:
  "[trialWith Correct, trialWith Incorrect, trialWith Correct] \<noteq> []
   \<and> length [trialWith Correct, trialWith Incorrect, trialWith Correct] < 2 ^ 44
   \<and> (200 * 2 + 3) mod (2 * 3) \<noteq> (0::nat)
   \<and> accuracy (calculateSessionStats [trialWith Correct, trialWith Incorrect, trialWith Correct])
       = Math_round (100 * 2 / 3)"
proof -
  have cs: "correctTrials (calculateSessionStats
               [trialWith Correct, trialWith Incorrect, trialWith Correct]) = 2"
    "totalTrials (calculateSessionStats
               [trialWith Correct, trialWith Incorrect, trialWith Correct]) = 3"
    by (simp_all add: calculateSessionStats_def Let_def trialWith_def)
  from calculateSessionStats_result
    [of "[trialWith Correct, trialWith Incorrect, trialWith Correct]"]
  show ?thesis unfolding cs by simp
qed

text \<open>
  C10. For every sequence of trials the accuracy returned by \<open>calculateSessionStats\<close> is
  an integer between 0 and 100 and none of the four counts exceeds \<open>totalTrials\<close>; hence
  the goal-accuracy update applied to a \<open>currentAccuracy\<close> between 0 and 100 gives a value
  between 0 and 100 again.
\<close>

theorem stats_percent_range:
  "0 \<le> accuracy (calculateSessionStats ts) \<and> accuracy (calculateSessionStats ts) \<le> 100
   \<and> correctTrials (calculateSessionStats ts) \<le> totalTrials (calculateSessionStats ts)
   \<and> incorrectTrials (calculateSessionStats ts) \<le> totalTrials (calculateSessionStats ts)
   \<and> approximationTrials (calculateSessionStats ts) \<le> totalTrials (calculateSessionStats ts)
   \<and> noResponseTrials (calculateSessionStats ts) \<le> totalTrials (calculateSessionStats ts)
   \<and> (0 \<le> currentAccuracy g \<and> currentAccuracy g \<le> 100 \<longrightarrow>
        0 \<le> newAccuracy g (calculateSessionStats ts)
        \<and> newAccuracy g (calculateSessionStats ts) \<le> 100)"
proof -
  have counts:
    "correctTrials (calculateSessionStats ts) \<le> totalTrials (calculateSessionStats ts)
     \<and> incorrectTrials (calculateSessionStats ts) \<le> totalTrials (calculateSessionStats ts)
     \<and> approximationTrials (calculateSessionStats ts) \<le> totalTrials (calculateSessionStats ts)
     \<and> noResponseTrials (calculateSessionStats ts) \<le> totalTrials (calculateSessionStats ts)"
    by (simp add: calculateSessionStats_def Let_def)
  show ?thesis
    using accuracy_bounds[of ts] newAccuracy_bounds[of g "calculateSessionStats ts"] counts
    by blast
qed

theorem stats_percent_range_witness:
  "0 \<le> currentAccuracy (exGoal ''g1'' ''c1'' Active)
   \<and> currentAccuracy (exGoal ''g1'' ''c1'' Active) \<le> 100
   \<and> 0 \<le> newAccuracy (exGoal ''g1'' ''c1'' Active)
            (calculateSessionStats [trialWith Correct, trialWith Incorrect])
   \<and> newAccuracy (exGoal ''g1'' ''c1'' Active)
        (calculateSessionStats [trialWith Correct, trialWith Incorrect]) \<le> 100"
  using stats_percent_range
    [of "[trialWith Correct, trialWith Incorrect]" "exGoal ''g1'' ''c1'' Active"]
  by (simp add: exGoal_def)

section \<open>Lists written back by \<open>save\<close>\<close>

lemma findIndex_None_iff: "findIndex P xs = None \<longleftrightarrow> (\<forall>x\<in>set xs. \<not> P x)"
  by (induction xs) auto

lemma findIndex_Some:
  "findIndex P xs = Some i \<Longrightarrow> i < length xs \<and> P (xs ! i) \<and> (\<forall>j<i. \<not> P (xs ! j))"
proof (induction xs arbitrary: i)
  case Nil
  then show ?case by simp
next
  case (Cons x xs)
  show ?case
  proof (cases "P x")
    case True
    then show ?thesis using Cons.prems by simp
  next
    case False
    then obtain k where k: "findIndex P xs = Some k" "i = Suc k"
      using Cons.prems by auto
    have "k < length xs \<and> P (xs ! k) \<and> (\<forall>j<k. \<not> P (xs ! j))" using Cons.IH[OF k(1)] .
    then show ?thesis using False k(2) by (auto simp: nth_Cons split: nat.splits)
  qed
qed

lemma findIndex_unique:
  assumes "distinct (map f xs)" "i < length xs" "f (xs ! i) = a"
  shows "findIndex (\<lambda>x. f x = a) xs = Some i"
proof (cases "findIndex (\<lambda>x. f x = a) xs")
  case None
  then show ?thesis using assms(2,3) by (auto simp: findIndex_None_iff)
next
  case (Some k)
  then have k: "k < length xs" "f (xs ! k) = a" using findIndex_Some[OF Some] by auto
  have "map f xs ! k = map f xs ! i" using k assms by simp
  moreover have "k < length (map f xs)" "i < length (map f xs)" using k assms by simp_all
  ultimately have "k = i" using nth_eq_iff_index_eq[of "map f xs" k i] assms(1) by simp
  then show ?thesis using Some by simp
qed

text \<open>The list written back by a save: replace at the first match or append.\<close>

lemma saved_distinct:
  assumes "distinct (map f xs)" "f y' = f y"
  shows "distinct (map f (case findIndex (\<lambda>x. f x = f y) xs of
                             Some i \<Rightarrow> xs[i := y'] | None \<Rightarrow> xs @ [y]))"
proof (cases "findIndex (\<lambda>x. f x = f y) xs")
  case None
  then have "\<forall>x\<in>set xs. f x \<noteq> f y" by (simp add: findIndex_None_iff)
  then show ?thesis using None assms(1) by auto
next
  case (Some i)
  then have i: "i < length xs" "f (xs ! i) = f y" using findIndex_Some[OF Some] by auto
  have "map f (xs[i := y']) = map f xs"
    using i assms(2) by (simp add: map_update list_update_same_conv)
  then show ?thesis using Some assms(1) by simp
qed

lemma saved_find:
  assumes "f y' = f y"
  shows "find (\<lambda>x. f x = f y) (case findIndex (\<lambda>x. f x = f y) xs of
                             Some i \<Rightarrow> xs[i := y'] | None \<Rightarrow> xs @ [y])
         = Some (case findIndex (\<lambda>x. f x = f y) xs of Some i \<Rightarrow> y' | None \<Rightarrow> y)"
proof (induction xs)
  case Nil
  then show ?case by simp
next
  case (Cons x xs)
  then show ?case using assms by (cases "findIndex (\<lambda>x. f x = f y) xs") auto
qed


lemma filter_key_distinct:
  "distinct (map f zs) \<Longrightarrow> i < length zs \<Longrightarrow> f (zs ! i) = a \<Longrightarrow>
   filter (\<lambda>x. f x = a) zs = [zs ! i]"
proof (induction zs arbitrary: i)
  case Nil
  then show ?case by simp
next
  case (Cons z zs)
  show ?case
  proof (cases i)
    case 0
    then have "f z = a" using Cons.prems by simp
    moreover have "\<forall>x\<in>set zs. f x \<noteq> f z" using Cons.prems(1) by (auto simp: image_iff)
    ultimately have "filter (\<lambda>x. f x = a) zs = []" by (auto simp: filter_empty_conv)
    then show ?thesis using 0 \<open>f z = a\<close> by simp
  next
    case (Suc k)
    then have k: "k < length zs" "f (zs ! k) = a" using Cons.prems by auto
    have "f z \<noteq> f (zs ! k)" using Cons.prems(1) k(1) by (auto simp: image_iff)
    then have "f z \<noteq> a" using k(2) by simp
    moreover have "filter (\<lambda>x. f x = a) zs = [zs ! k]"
      using Cons.IH[OF _ k] Cons.prems(1) by simp
    ultimately show ?thesis using Suc by simp
  qed
qed

lemma saved_count:
  assumes "distinct (map f xs)" "f y' = f y"
  shows "length (filter (\<lambda>x. f x = f y) (case findIndex (\<lambda>x. f x = f y) xs of
                             Some i \<Rightarrow> xs[i := y'] | None \<Rightarrow> xs @ [y])) = 1"
proof (cases "findIndex (\<lambda>x. f x = f y) xs")
  case None
  then have "\<forall>x\<in>set xs. f x \<noteq> f y" by (simp add: findIndex_None_iff)
  then have "filter (\<lambda>x. f x = f y) xs = []" by (auto simp: filter_empty_conv)
  then show ?thesis using None by simp
next
  case (Some i)
  then have i: "i < length xs" using findIndex_Some[OF Some] by simp
  have d: "distinct (map f (xs[i := y']))"
    using saved_distinct[OF assms, of ] Some by simp
  have "filter (\<lambda>x. f x = f y) (xs[i := y']) = [xs[i := y'] ! i]"
    using d i assms(2) by (intro filter_key_distinct) simp_all
  then show ?thesis using Some by simp
qed

section \<open>Record store\<close>

lemmas store_defs =
  setItem_def ClientStorage_getAll_def GoalStorage_getAll_def SessionStorage_getAll_def
  SettingsStorage_get_def


text \<open>
  C4, as stated, fails: \<open>ClientStorage.delete\<close> answers with the result of its last
  write only. When the write of the goals cascade fails and the two others succeed, it
  answers \<open>true\<close>; the client \<open>c1\<close> is gone and its goal is still stored.
\<close>

theorem ClientStorage_delete_cascade_write_fails:
  "fst (ClientStorage_delete ''c1'' False True True exStorage) = True
   \<and> map goal.clientId
        (GoalStorage_getAll (snd (ClientStorage_delete ''c1'' False True True exStorage)))
       = [''c1'', ''c2'']
   \<and> map client.ident
        (ClientStorage_getAll (snd (ClientStorage_delete ''c1'' False True True exStorage)))
       = [''c2'']"
  by (simp add: ClientStorage_delete_def GoalStorage_deleteByClientId_def
      SessionStorage_deleteByClientId_def store_defs Let_def exStorage_def exGoal_def
      exClient_def exSession_def)

text \<open>
  C4, amended. The store operations are total: \<open>setItem\<close> catches what the medium
  throws, so nothing reaches the caller. Each \<open>save\<close>, and \<open>delete\<close> of a goal or a
  session, performs one write and answers \<open>false\<close> exactly when that write fails.
  \<open>ClientStorage.delete\<close> answers \<open>false\<close> exactly when the write of the clients fails,
  whatever became of the two cascade writes.
\<close>

theorem store_operations_result:
  "fst (ClientStorage_save c now ok st) = ok
   \<and> fst (GoalStorage_save g now ok st) = ok
   \<and> fst (SessionStorage_save x ok st) = ok
   \<and> fst (GoalStorage_delete i ok st) = ok
   \<and> fst (SessionStorage_delete i ok st) = ok
   \<and> fst (ClientStorage_delete i okG okS okC st) = okC"
  by (simp add: ClientStorage_save_def GoalStorage_save_def SessionStorage_save_def
      GoalStorage_delete_def SessionStorage_delete_def ClientStorage_delete_def
      setItem_def Let_def)

text \<open>
  C5. Importing the document that \<open>exportAllData\<close> produced from a store into that same
  store answers \<open>true\<close> and leaves the four collections as they were read before the
  export, whatever the outcome of the four writes (a write that fails leaves the old
  document, which reads the same).
\<close>

theorem importData_exportAllData:
  "fst (importData (JDoc (exportAllData now st)) okC okG okS okT st) = True
   \<and> ClientStorage_getAll (snd (importData (JDoc (exportAllData now st)) okC okG okS okT st))
       = ClientStorage_getAll st
   \<and> GoalStorage_getAll (snd (importData (JDoc (exportAllData now st)) okC okG okS okT st))
       = GoalStorage_getAll st
   \<and> SessionStorage_getAll (snd (importData (JDoc (exportAllData now st)) okC okG okS okT st))
       = SessionStorage_getAll st
   \<and> SettingsStorage_get (snd (importData (JDoc (exportAllData now st)) okC okG okS okT st))
       = SettingsStorage_get st"
  by (simp add: importData_def exportAllData_def store_defs Let_def split: option.splits)

text \<open>
  C6, as stated, fails: the text \<open>null\<close> is parseable JSON, and \<open>importData\<close> answers
  \<open>false\<close> on it, since reading a property of \<open>null\<close> throws inside the \<open>try\<close>.
\<close>

theorem importData_JNull:
  "fst (importData JNull True True True True exStorage) = False \<and> JNull \<noteq> SyntaxError"
  by (simp add: importData_def)

text \<open>
  C6, amended. \<open>importData\<close> answers \<open>false\<close> exactly when the text does not parse or
  parses to \<open>null\<close>. Otherwise it answers \<open>true\<close> and, the writes going through, each
  of the four keys that is present with a truthy value overwrites its collection with that
  value, and every other key, absent or falsy, leaves its collection as it was.
\<close>

theorem importData_result:
  "(fst (importData data okC okG okS okT st) = False \<longleftrightarrow> data = SyntaxError \<or> data = JNull)
   \<and> (data = JDoc d \<longrightarrow>
        importData data True True True True st =
          (True,
           \<lparr>CLIENTS = (case document.clients d of Value v \<Rightarrow> Some v | _ \<Rightarrow> CLIENTS st),
            GOALS = (case document.goals d of Value v \<Rightarrow> Some v | _ \<Rightarrow> GOALS st),
            SESSIONS = (case document.sessions d of Value v \<Rightarrow> Some v | _ \<Rightarrow> SESSIONS st),
            SETTINGS = (case document.settings d of Value v \<Rightarrow> Some v | _ \<Rightarrow> SETTINGS st)\<rparr>))"
  by (cases data) (auto simp: importData_def setItem_def Let_def split: field.splits)

theorem importData_result_witness:
  "importData
     (JDoc \<lparr>exportDate = Value ''2024-03-01T12:00:00.000Z'', document.clients = Value [],
            document.goals = Absent, document.sessions = Value [exSession ''s9'' ''c2''],
            document.settings = Value DEFAULT_SETTINGS\<rparr>)
     True True True True exStorage
   = (True, \<lparr>CLIENTS = Some [], GOALS = GOALS exStorage,
             SESSIONS = Some [exSession ''s9'' ''c2''], SETTINGS = Some DEFAULT_SETTINGS\<rparr>)"
  using importData_result
    [of "JDoc \<lparr>exportDate = Value ''2024-03-01T12:00:00.000Z'', document.clients = Value [],
            document.goals = Absent, document.sessions = Value [exSession ''s9'' ''c2''],
            document.settings = Value DEFAULT_SETTINGS\<rparr>" True True True True exStorage
        "\<lparr>exportDate = Value ''2024-03-01T12:00:00.000Z'', document.clients = Value [],
            document.goals = Absent, document.sessions = Value [exSession ''s9'' ''c2''],
            document.settings = Value DEFAULT_SETTINGS\<rparr>"]
  by simp

lemma saved_replace:
  assumes "distinct (map f xs)" "i < length xs" "f (xs ! i) = f y"
  shows "(case findIndex (\<lambda>x. f x = f y) xs of Some i \<Rightarrow> xs[i := y'] | None \<Rightarrow> xs @ [y])
         = xs[i := y']"
  using findIndex_unique[OF assms] by simp

lemma saved_append:
  assumes "f y \<notin> set (map f xs)"
  shows "(case findIndex (\<lambda>x. f x = f y) xs of Some i \<Rightarrow> xs[i := y'] | None \<Rightarrow> xs @ [y])
         = xs @ [y]"
proof -
  have "findIndex (\<lambda>x. f x = f y) xs = None"
    using assms by (auto simp: findIndex_None_iff image_iff)
  then show ?thesis by simp
qed

lemma ClientStorage_save_getAll:
  "ClientStorage_getAll (snd (ClientStorage_save c now True st)) =
     (case findIndex (\<lambda>x. client.ident x = client.ident c) (ClientStorage_getAll st) of
        Some i \<Rightarrow> (ClientStorage_getAll st)[i := c\<lparr>client.updatedAt := now\<rparr>]
      | None \<Rightarrow> ClientStorage_getAll st @ [c])"
  by (simp add: ClientStorage_save_def setItem_def Let_def)
     (simp add: ClientStorage_getAll_def)

lemma GoalStorage_save_getAll:
  "GoalStorage_getAll (snd (GoalStorage_save g now True st)) =
     (case findIndex (\<lambda>x. goal.ident x = goal.ident g) (GoalStorage_getAll st) of
        Some i \<Rightarrow> (GoalStorage_getAll st)[i := g\<lparr>goal.updatedAt := now\<rparr>]
      | None \<Rightarrow> GoalStorage_getAll st @ [g])"
  by (simp add: GoalStorage_save_def setItem_def Let_def)
     (simp add: GoalStorage_getAll_def)

lemma SessionStorage_save_getAll:
  "SessionStorage_getAll (snd (SessionStorage_save x True st)) =
     (case findIndex (\<lambda>y. session.ident y = session.ident x) (SessionStorage_getAll st) of
        Some i \<Rightarrow> (SessionStorage_getAll st)[i := x]
      | None \<Rightarrow> SessionStorage_getAll st @ [x])"
  by (simp add: SessionStorage_save_def setItem_def Let_def)
     (simp add: SessionStorage_getAll_def)

lemma ClientStorage_save_upsert:
  assumes d: "distinct (map client.ident (ClientStorage_getAll st))"
  shows "distinct (map client.ident (ClientStorage_getAll (snd (ClientStorage_save c now True st))))
    \<and> (\<forall>i<length (ClientStorage_getAll st).
         client.ident (ClientStorage_getAll st ! i) = client.ident c \<longrightarrow>
         ClientStorage_getAll (snd (ClientStorage_save c now True st))
           = (ClientStorage_getAll st)[i := c\<lparr>client.updatedAt := now\<rparr>])
    \<and> (client.ident c \<notin> set (map client.ident (ClientStorage_getAll st)) \<longrightarrow>
         ClientStorage_getAll (snd (ClientStorage_save c now True st))
           = ClientStorage_getAll st @ [c])
    \<and> length (filter (\<lambda>x. client.ident x = client.ident c)
           (ClientStorage_getAll
              (snd (ClientStorage_save c now' True (snd (ClientStorage_save c now True st))))))
         = 1"
proof -
  have d': "distinct (map client.ident (ClientStorage_getAll (snd (ClientStorage_save c now True st))))"
    unfolding ClientStorage_save_getAll using d by (intro saved_distinct) simp_all
  have r: "\<forall>i<length (ClientStorage_getAll st).
         client.ident (ClientStorage_getAll st ! i) = client.ident c \<longrightarrow>
         ClientStorage_getAll (snd (ClientStorage_save c now True st))
           = (ClientStorage_getAll st)[i := c\<lparr>client.updatedAt := now\<rparr>]"
    unfolding ClientStorage_save_getAll using d by (auto intro: saved_replace)
  have a: "client.ident c \<notin> set (map client.ident (ClientStorage_getAll st)) \<longrightarrow>
         ClientStorage_getAll (snd (ClientStorage_save c now True st))
           = ClientStorage_getAll st @ [c]"
    unfolding ClientStorage_save_getAll by (auto intro: saved_append)
  have t: "length (filter (\<lambda>x. client.ident x = client.ident c)
           (ClientStorage_getAll
              (snd (ClientStorage_save c now' True (snd (ClientStorage_save c now True st))))))
         = 1"
    unfolding ClientStorage_save_getAll[of c now' "snd (ClientStorage_save c now True st)"]
    using d' by (intro saved_count) simp_all
  show ?thesis using d' r a t by blast
qed

lemma GoalStorage_save_upsert:
  assumes d: "distinct (map goal.ident (GoalStorage_getAll st))"
  shows "distinct (map goal.ident (GoalStorage_getAll (snd (GoalStorage_save g now True st))))
    \<and> (\<forall>i<length (GoalStorage_getAll st).
         goal.ident (GoalStorage_getAll st ! i) = goal.ident g \<longrightarrow>
         GoalStorage_getAll (snd (GoalStorage_save g now True st))
           = (GoalStorage_getAll st)[i := g\<lparr>goal.updatedAt := now\<rparr>])
    \<and> (goal.ident g \<notin> set (map goal.ident (GoalStorage_getAll st)) \<longrightarrow>
         GoalStorage_getAll (snd (GoalStorage_save g now True st))
           = GoalStorage_getAll st @ [g])
    \<and> length (filter (\<lambda>x. goal.ident x = goal.ident g)
           (GoalStorage_getAll
              (snd (GoalStorage_save g now' True (snd (GoalStorage_save g now True st))))))
         = 1"
proof -
  have d': "distinct (map goal.ident (GoalStorage_getAll (snd (GoalStorage_save g now True st))))"
    unfolding GoalStorage_save_getAll using d by (intro saved_distinct) simp_all
  have r: "\<forall>i<length (GoalStorage_getAll st).
         goal.ident (GoalStorage_getAll st ! i) = goal.ident g \<longrightarrow>
         GoalStorage_getAll (snd (GoalStorage_save g now True st))
           = (GoalStorage_getAll st)[i := g\<lparr>goal.updatedAt := now\<rparr>]"
    unfolding GoalStorage_save_getAll using d by (auto intro: saved_replace)
  have a: "goal.ident g \<notin> set (map goal.ident (GoalStorage_getAll st)) \<longrightarrow>
         GoalStorage_getAll (snd (GoalStorage_save g now True st))
           = GoalStorage_getAll st @ [g]"
    unfolding GoalStorage_save_getAll by (auto intro: saved_append)
  have t: "length (filter (\<lambda>x. goal.ident x = goal.ident g)
           (GoalStorage_getAll
              (snd (GoalStorage_save g now' True (snd (GoalStorage_save g now True st))))))
         = 1"
    unfolding GoalStorage_save_getAll[of g now' "snd (GoalStorage_save g now True st)"]
    using d' by (intro saved_count) simp_all
  show ?thesis using d' r a t by blast
qed


lemma SessionStorage_save_upsert:
  assumes d: "distinct (map session.ident (SessionStorage_getAll st))"
  shows "distinct (map session.ident (SessionStorage_getAll (snd (SessionStorage_save c True st))))
    \<and> (\<forall>i<length (SessionStorage_getAll st).
         session.ident (SessionStorage_getAll st ! i) = session.ident c \<longrightarrow>
         SessionStorage_getAll (snd (SessionStorage_save c True st))
           = (SessionStorage_getAll st)[i := c])
    \<and> (session.ident c \<notin> set (map session.ident (SessionStorage_getAll st)) \<longrightarrow>
         SessionStorage_getAll (snd (SessionStorage_save c True st))
           = SessionStorage_getAll st @ [c])
    \<and> length (filter (\<lambda>x. session.ident x = session.ident c)
           (SessionStorage_getAll
              (snd (SessionStorage_save c True (snd (SessionStorage_save c True st))))))
         = 1"
proof -
  have d': "distinct (map session.ident (SessionStorage_getAll (snd (SessionStorage_save c True st))))"
    unfolding SessionStorage_save_getAll using d by (intro saved_distinct) simp_all
  have r: "\<forall>i<length (SessionStorage_getAll st).
         session.ident (SessionStorage_getAll st ! i) = session.ident c \<longrightarrow>
         SessionStorage_getAll (snd (SessionStorage_save c True st))
           = (SessionStorage_getAll st)[i := c]"
    unfolding SessionStorage_save_getAll using d by (auto intro: saved_replace)
  have a: "session.ident c \<notin> set (map session.ident (SessionStorage_getAll st)) \<longrightarrow>
         SessionStorage_getAll (snd (SessionStorage_save c True st))
           = SessionStorage_getAll st @ [c]"
    unfolding SessionStorage_save_getAll by (auto intro: saved_append)
  have t: "length (filter (\<lambda>x. session.ident x = session.ident c)
           (SessionStorage_getAll
              (snd (SessionStorage_save c True (snd (SessionStorage_save c True st))))))
         = 1"
    unfolding SessionStorage_save_getAll[of c "snd (SessionStorage_save c True st)"]
    using d' by (intro saved_count) simp_all
  show ?thesis using d' r a t by blast
qed


text \<open>
  C7. On a collection whose ids are pairwise distinct, a \<open>save\<close> whose write goes through
  keeps the ids distinct; where a record of the same id exists, the list is the old one with
  the entity put in that position (for a client and a goal with \<open>updatedAt\<close> set to the
  time of the save), and where none exists it is the old list with the entity appended.
  After saving the same entity twice exactly one record has its id.
\<close>

theorem save_upsert:
  "(distinct (map client.ident (ClientStorage_getAll st)) \<longrightarrow>
      distinct (map client.ident (ClientStorage_getAll (snd (ClientStorage_save c now True st))))
    \<and> (\<forall>i<length (ClientStorage_getAll st).
         client.ident (ClientStorage_getAll st ! i) = client.ident c \<longrightarrow>
         ClientStorage_getAll (snd (ClientStorage_save c now True st))
           = (ClientStorage_getAll st)[i := c\<lparr>client.updatedAt := now\<rparr>])
    \<and> (client.ident c \<notin> set (map client.ident (ClientStorage_getAll st)) \<longrightarrow>
         ClientStorage_getAll (snd (ClientStorage_save c now True st))
           = ClientStorage_getAll st @ [c])
    \<and> length (filter (\<lambda>x. client.ident x = client.ident c)
           (ClientStorage_getAll
              (snd (ClientStorage_save c now' True (snd (ClientStorage_save c now True st))))))
         = 1)
   \<and> (distinct (map goal.ident (GoalStorage_getAll st)) \<longrightarrow>
      distinct (map goal.ident (GoalStorage_getAll (snd (GoalStorage_save g now True st))))
    \<and> (\<forall>i<length (GoalStorage_getAll st).
         goal.ident (GoalStorage_getAll st ! i) = goal.ident g \<longrightarrow>
         GoalStorage_getAll (snd (GoalStorage_save g now True st))
           = (GoalStorage_getAll st)[i := g\<lparr>goal.updatedAt := now\<rparr>])
    \<and> (goal.ident g \<notin> set (map goal.ident (GoalStorage_getAll st)) \<longrightarrow>
         GoalStorage_getAll (snd (GoalStorage_save g now True st))
           = GoalStorage_getAll st @ [g])
    \<and> length (filter (\<lambda>x. goal.ident x = goal.ident g)
           (GoalStorage_getAll
              (snd (GoalStorage_save g now' True (snd (GoalStorage_save g now True st))))))
         = 1)
   \<and> (distinct (map session.ident (SessionStorage_getAll st)) \<longrightarrow>
      distinct (map session.ident (SessionStorage_getAll (snd (SessionStorage_save x True st))))
    \<and> (\<forall>i<length (SessionStorage_getAll st).
         session.ident (SessionStorage_getAll st ! i) = session.ident x \<longrightarrow>
         SessionStorage_getAll (snd (SessionStorage_save x True st))
           = (SessionStorage_getAll st)[i := x])
    \<and> (session.ident x \<notin> set (map session.ident (SessionStorage_getAll st)) \<longrightarrow>
         SessionStorage_getAll (snd (SessionStorage_save x True st))
           = SessionStorage_getAll st @ [x])
    \<and> length (filter (\<lambda>y. session.ident y = session.ident x)
           (SessionStorage_getAll
              (snd (SessionStorage_save x True (snd (SessionStorage_save x True st))))))
         = 1)"
  using ClientStorage_save_upsert[of st c now now'] GoalStorage_save_upsert[of st g now now']
    SessionStorage_save_upsert[of st x]
  by blast

theorem save_upsert_witness:
  "distinct (map client.ident (ClientStorage_getAll exStorage))
   \<and> distinct (map goal.ident (GoalStorage_getAll exStorage))
   \<and> distinct (map session.ident (SessionStorage_getAll exStorage))
   \<and> ClientStorage_getAll
        (snd (ClientStorage_save (exClient ''c2'' ''u1'') ''u2'' True exStorage))
       = [exClient ''c1'' ''2024-01-01T09:00:00.000Z'', exClient ''c2'' ''u2'']
   \<and> GoalStorage_getAll (snd (GoalStorage_save (exGoal ''g3'' ''c1'' Active) ''u2'' True exStorage))
       = [exGoal ''g1'' ''c1'' Discontinued, exGoal ''g2'' ''c2'' Active,
          exGoal ''g3'' ''c1'' Active]
   \<and> length (filter (\<lambda>y. session.ident y = ''s3'')
        (SessionStorage_getAll
           (snd (SessionStorage_save (exSession ''s3'' ''c1'') True
              (snd (SessionStorage_save (exSession ''s3'' ''c1'') True exStorage)))))) = 1"
  using save_upsert[of exStorage "exClient ''c2'' ''u1''" "''u2''" "''u3''"
      "exGoal ''g3'' ''c1'' Active" "exSession ''s3'' ''c1''"]
  by (simp add: exStorage_def exClient_def exGoal_def exSession_def store_defs
      ClientStorage_save_def GoalStorage_save_def SessionStorage_save_def Let_def)

section \<open>State facade\<close>

lemma facade_add_delete_keep_mirror:
  assumes "m = loadData st"
  shows "client.ident c \<notin> set (map client.ident (ClientStorage_getAll st)) \<Longrightarrow>
           fst (snd (addClient c now True (m, st))) = loadData (snd (snd (addClient c now True (m, st))))"
    and "goal.ident g \<notin> set (map goal.ident (GoalStorage_getAll st)) \<Longrightarrow>
           fst (snd (addGoal g now True (m, st))) = loadData (snd (snd (addGoal g now True (m, st))))"
    and "session.ident x \<notin> set (map session.ident (SessionStorage_getAll st)) \<Longrightarrow>
           fst (snd (addSession x True (m, st))) = loadData (snd (snd (addSession x True (m, st))))"
    and "fst (snd (deleteClient i True True True (m, st)))
           = loadData (snd (snd (deleteClient i True True True (m, st))))"
    and "fst (snd (deleteGoal i True (m, st))) = loadData (snd (snd (deleteGoal i True (m, st))))"
    and "fst (snd (deleteSession i True (m, st)))
           = loadData (snd (snd (deleteSession i True (m, st))))"
    and "fst (snd (updateSettings y True (m, st)))
           = loadData (snd (snd (updateSettings y True (m, st))))"
proof -
  show "fst (snd (addClient c now True (m, st))) = loadData (snd (snd (addClient c now True (m, st))))"
    if "client.ident c \<notin> set (map client.ident (ClientStorage_getAll st))"
  proof -
    have "findIndex (\<lambda>x. client.ident x = client.ident c) (ClientStorage_getAll st) = None"
      using that by (auto simp: findIndex_None_iff image_iff)
    then show ?thesis using assms
      by (simp add: addClient_def ClientStorage_save_def loadData_def Let_def setItem_def)
         (simp add: store_defs)
  qed
  show "fst (snd (addGoal g now True (m, st))) = loadData (snd (snd (addGoal g now True (m, st))))"
    if "goal.ident g \<notin> set (map goal.ident (GoalStorage_getAll st))"
  proof -
    have "findIndex (\<lambda>x. goal.ident x = goal.ident g) (GoalStorage_getAll st) = None"
      using that by (auto simp: findIndex_None_iff image_iff)
    then show ?thesis using assms
      by (simp add: addGoal_def GoalStorage_save_def loadData_def Let_def setItem_def)
         (simp add: store_defs)
  qed
  show "fst (snd (addSession x True (m, st))) = loadData (snd (snd (addSession x True (m, st))))"
    if "session.ident x \<notin> set (map session.ident (SessionStorage_getAll st))"
  proof -
    have "findIndex (\<lambda>y. session.ident y = session.ident x) (SessionStorage_getAll st) = None"
      using that by (auto simp: findIndex_None_iff image_iff)
    then show ?thesis using assms
      by (simp add: addSession_def SessionStorage_save_def loadData_def Let_def setItem_def)
         (simp add: store_defs)
  qed
  show "fst (snd (deleteClient i True True True (m, st)))
           = loadData (snd (snd (deleteClient i True True True (m, st))))"
    using assms
    by (simp add: deleteClient_def ClientStorage_delete_def GoalStorage_deleteByClientId_def
        SessionStorage_deleteByClientId_def loadData_def Let_def setItem_def)
       (simp add: store_defs)
  show "fst (snd (deleteGoal i True (m, st))) = loadData (snd (snd (deleteGoal i True (m, st))))"
    using assms
    by (simp add: deleteGoal_def GoalStorage_delete_def loadData_def Let_def setItem_def)
       (simp add: store_defs)
  show "fst (snd (deleteSession i True (m, st)))
           = loadData (snd (snd (deleteSession i True (m, st))))"
    using assms
    by (simp add: deleteSession_def SessionStorage_delete_def loadData_def Let_def setItem_def)
       (simp add: store_defs)
  show "fst (snd (updateSettings y True (m, st)))
           = loadData (snd (snd (updateSettings y True (m, st))))"
    using assms
    by (simp add: updateSettings_def SettingsStorage_save_def loadData_def Let_def setItem_def)
       (simp add: store_defs)
qed

text \<open>
  C8, as stated, fails. \<open>updateClient\<close> from a mirror that equals the store: the save
  succeeds and stamps \<open>updatedAt\<close> with its own time, while the mirror takes the client
  as the caller passed it. The mirror and the store differ afterwards in \<open>updatedAt\<close> of
  that client.
\<close>

theorem updateClient_mirror_updatedAt:
  "fst (updateClient (exClient ''c1'' ''2024-02-01T08:00:00.000Z'') ''2024-02-01T08:00:00.007Z''
          True (loadData exStorage, exStorage)) = True
   \<and> map client.updatedAt
        (ClientStorage_getAll
           (snd (snd (updateClient (exClient ''c1'' ''2024-02-01T08:00:00.000Z'')
                        ''2024-02-01T08:00:00.007Z'' True (loadData exStorage, exStorage)))))
       = [''2024-02-01T08:00:00.007Z'', ''2024-01-01T09:00:00.000Z'']
   \<and> map client.updatedAt
        (appState.clients
           (fst (snd (updateClient (exClient ''c1'' ''2024-02-01T08:00:00.000Z'')
                        ''2024-02-01T08:00:00.007Z'' True (loadData exStorage, exStorage)))))
       = [''2024-02-01T08:00:00.000Z'', ''2024-01-01T09:00:00.000Z'']
   \<and> fst (snd (updateClient (exClient ''c1'' ''2024-02-01T08:00:00.000Z'')
                 ''2024-02-01T08:00:00.007Z'' True (loadData exStorage, exStorage)))
       \<noteq> loadData (snd (snd (updateClient (exClient ''c1'' ''2024-02-01T08:00:00.000Z'')
                 ''2024-02-01T08:00:00.007Z'' True (loadData exStorage, exStorage))))"
  by (simp add: updateClient_def ClientStorage_save_def loadData_def Let_def
      store_defs exStorage_def exClient_def)

lemma map_replace_key:
  assumes "distinct (map f zs)" "i < length zs" "f (zs ! i) = k"
  shows "map (\<lambda>x. if f x = k then g x else x) zs = zs[i := g (zs ! i)]"
proof (rule nth_equalityI)
  show "length (map (\<lambda>x. if f x = k then g x else x) zs) = length (zs[i := g (zs ! i)])"
    by simp
next
  fix j
  assume "j < length (map (\<lambda>x. if f x = k then g x else x) zs)"
  then have j: "j < length zs" by simp
  show "map (\<lambda>x. if f x = k then g x else x) zs ! j = zs[i := g (zs ! i)] ! j"
  proof (cases "j = i")
    case True
    then show ?thesis using assms(2,3) by simp
  next
    case False
    have "map f zs ! j \<noteq> map f zs ! i"
      using assms(1,2) j False by (simp add: nth_eq_iff_index_eq del: nth_map)
    then have "f (zs ! j) \<noteq> k" using assms(2,3) j by simp
    then show ?thesis using False j by simp
  qed
qed

lemma key_index:
  assumes "k \<in> set (map f xs)"
  obtains i where "i < length xs" "f (xs ! i) = k"
  using assms by (auto simp: in_set_conv_nth)

lemma updateClient_mirror:
  assumes "m = loadData st"
    and "distinct (map client.ident (ClientStorage_getAll st))"
    and "client.ident c \<in> set (map client.ident (ClientStorage_getAll st))"
  shows "fst (snd (updateClient c now True (m, st))) =
     (loadData (snd (snd (updateClient c now True (m, st)))))
       \<lparr>appState.clients :=
          map (\<lambda>x. if client.ident x = client.ident c
                   then x\<lparr>client.updatedAt := client.updatedAt c\<rparr> else x)
            (ClientStorage_getAll (snd (snd (updateClient c now True (m, st)))))\<rparr>"
proof -
  let ?xs = "ClientStorage_getAll st"
  obtain i where i: "i < length ?xs" "client.ident (?xs ! i) = client.ident c"
    using assms(3) by (rule key_index)
  have fi: "findIndex (\<lambda>x. client.ident x = client.ident c) ?xs = Some i"
    using assms(2) i by (rule findIndex_unique)
  have st': "snd (snd (updateClient c now True (m, st)))
      = st\<lparr>CLIENTS := Some (?xs[i := c\<lparr>client.updatedAt := now\<rparr>])\<rparr>"
    using fi by (simp add: updateClient_def ClientStorage_save_def setItem_def Let_def)
  have "(map client.ident ?xs)[i := client.ident c] = map client.ident ?xs"
    using i by (simp add: list_update_same_conv)
  then have d': "distinct (map client.ident (?xs[i := c\<lparr>client.updatedAt := now\<rparr>]))"
    using assms(2) by (simp add: map_update)
  have a: "map (\<lambda>x. if client.ident x = client.ident c then c else x) ?xs = ?xs[i := c]"
    using map_replace_key[OF assms(2) i, of "\<lambda>_. c"] by simp
  have b: "map (\<lambda>x. if client.ident x = client.ident c
                   then x\<lparr>client.updatedAt := client.updatedAt c\<rparr> else x)
             (?xs[i := c\<lparr>client.updatedAt := now\<rparr>]) = ?xs[i := c]"
    using map_replace_key[OF d', of i "client.ident c"
        "\<lambda>x. x\<lparr>client.updatedAt := client.updatedAt c\<rparr>"] i
    by simp
  have m': "fst (snd (updateClient c now True (m, st)))
      = m\<lparr>appState.clients := ?xs[i := c]\<rparr>"
    using a assms(1)
    by (simp add: updateClient_def ClientStorage_save_def setItem_def Let_def loadData_def)
  show ?thesis unfolding st' m' using b assms(1)
    by (simp add: loadData_def) (simp add: store_defs)
qed

lemma updateGoal_mirror:
  assumes "m = loadData st"
    and "distinct (map goal.ident (GoalStorage_getAll st))"
    and "goal.ident g \<in> set (map goal.ident (GoalStorage_getAll st))"
  shows "fst (snd (updateGoal g now True (m, st))) =
     (loadData (snd (snd (updateGoal g now True (m, st)))))
       \<lparr>appState.goals :=
          map (\<lambda>x. if goal.ident x = goal.ident g
                   then x\<lparr>goal.updatedAt := goal.updatedAt g\<rparr> else x)
            (GoalStorage_getAll (snd (snd (updateGoal g now True (m, st)))))\<rparr>"
proof -
  let ?xs = "GoalStorage_getAll st"
  obtain i where i: "i < length ?xs" "goal.ident (?xs ! i) = goal.ident g"
    using assms(3) by (rule key_index)
  have fi: "findIndex (\<lambda>x. goal.ident x = goal.ident g) ?xs = Some i"
    using assms(2) i by (rule findIndex_unique)
  have st': "snd (snd (updateGoal g now True (m, st)))
      = st\<lparr>GOALS := Some (?xs[i := g\<lparr>goal.updatedAt := now\<rparr>])\<rparr>"
    using fi by (simp add: updateGoal_def GoalStorage_save_def setItem_def Let_def)
  have "(map goal.ident ?xs)[i := goal.ident g] = map goal.ident ?xs"
    using i by (simp add: list_update_same_conv)
  then have d': "distinct (map goal.ident (?xs[i := g\<lparr>goal.updatedAt := now\<rparr>]))"
    using assms(2) by (simp add: map_update)
  have a: "map (\<lambda>x. if goal.ident x = goal.ident g then g else x) ?xs = ?xs[i := g]"
    using map_replace_key[OF assms(2) i, of "\<lambda>_. g"] by simp
  have b: "map (\<lambda>x. if goal.ident x = goal.ident g
                   then x\<lparr>goal.updatedAt := goal.updatedAt g\<rparr> else x)
             (?xs[i := g\<lparr>goal.updatedAt := now\<rparr>]) = ?xs[i := g]"
    using map_replace_key[OF d', of i "goal.ident g"
        "\<lambda>x. x\<lparr>goal.updatedAt := goal.updatedAt g\<rparr>"] i
    by simp
  have m': "fst (snd (updateGoal g now True (m, st)))
      = m\<lparr>appState.goals := ?xs[i := g]\<rparr>"
    using a assms(1)
    by (simp add: updateGoal_def GoalStorage_save_def setItem_def Let_def loadData_def)
  show ?thesis unfolding st' m' using b assms(1)
    by (simp add: loadData_def) (simp add: store_defs)
qed

lemma updateSession_mirror:
  assumes "m = loadData st"
    and "distinct (map session.ident (SessionStorage_getAll st))"
    and "session.ident x \<in> set (map session.ident (SessionStorage_getAll st))"
  shows "fst (snd (updateSession x True (m, st)))
      = loadData (snd (snd (updateSession x True (m, st))))"
proof -
  let ?xs = "SessionStorage_getAll st"
  obtain i where i: "i < length ?xs" "session.ident (?xs ! i) = session.ident x"
    using assms(3) by (rule key_index)
  have fi: "findIndex (\<lambda>y. session.ident y = session.ident x) ?xs = Some i"
    using assms(2) i by (rule findIndex_unique)
  have st': "snd (snd (updateSession x True (m, st))) = st\<lparr>SESSIONS := Some (?xs[i := x])\<rparr>"
    using fi by (simp add: updateSession_def SessionStorage_save_def setItem_def Let_def)
  have a: "map (\<lambda>y. if session.ident y = session.ident x then x else y) ?xs = ?xs[i := x]"
    using map_replace_key[OF assms(2) i, of "\<lambda>_. x"] by simp
  have m': "fst (snd (updateSession x True (m, st)))
      = m\<lparr>appState.sessions := ?xs[i := x]\<rparr>"
    using a assms(1)
    by (simp add: updateSession_def SessionStorage_save_def setItem_def Let_def loadData_def)
  show ?thesis unfolding st' m' using assms(1)
    by (simp add: loadData_def) (simp add: store_defs)
qed

lemma facade_failure_keeps_mirror:
  "fst (addClient c now False w) = False \<and> fst (snd (addClient c now False w)) = fst w"
  "fst (updateClient c now False w) = False \<and> fst (snd (updateClient c now False w)) = fst w"
  "fst (deleteClient i okG okS False w) = False
     \<and> fst (snd (deleteClient i okG okS False w)) = fst w"
  "fst (addGoal g now False w) = False \<and> fst (snd (addGoal g now False w)) = fst w"
  "fst (updateGoal g now False w) = False \<and> fst (snd (updateGoal g now False w)) = fst w"
  "fst (deleteGoal i False w) = False \<and> fst (snd (deleteGoal i False w)) = fst w"
  "fst (addSession x False w) = False \<and> fst (snd (addSession x False w)) = fst w"
  "fst (updateSession x False w) = False \<and> fst (snd (updateSession x False w)) = fst w"
  "fst (deleteSession i False w) = False \<and> fst (snd (deleteSession i False w)) = fst w"
  "fst (updateSettings y False w) = False \<and> fst (snd (updateSettings y False w)) = fst w"
  by (cases w; simp add: addClient_def updateClient_def deleteClient_def addGoal_def
      updateGoal_def deleteGoal_def addSession_def updateSession_def deleteSession_def
      updateSettings_def ClientStorage_save_def GoalStorage_save_def SessionStorage_save_def
      ClientStorage_delete_def GoalStorage_delete_def SessionStorage_delete_def
      SettingsStorage_save_def setItem_def Let_def)+

text \<open>
  C8, amended. From a mirror that equals the store. A mutation whose store operation fails
  answers \<open>false\<close> and leaves the mirror as it was. After a successful one the mirror
  equals the store again for: \<open>addClient\<close>, \<open>addGoal\<close>, \<open>addSession\<close> of an entity
  whose id is new; \<open>deleteGoal\<close>, \<open>deleteSession\<close>, \<open>updateSettings\<close>;
  \<open>deleteClient\<close> when its three writes went through; \<open>updateSession\<close> of a stored
  session, the ids being distinct. After \<open>updateClient\<close> and \<open>updateGoal\<close> of a stored
  entity, the ids being distinct, the mirror is the store with \<open>updatedAt\<close> of that
  record replaced by the value the caller passed.
\<close>

theorem facade_mirror:
  "(client.ident c \<notin> set (map client.ident (ClientStorage_getAll st)) \<longrightarrow>
      fst (snd (addClient c now True (loadData st, st)))
        = loadData (snd (snd (addClient c now True (loadData st, st)))))
   \<and> (goal.ident g \<notin> set (map goal.ident (GoalStorage_getAll st)) \<longrightarrow>
      fst (snd (addGoal g now True (loadData st, st)))
        = loadData (snd (snd (addGoal g now True (loadData st, st)))))
   \<and> (session.ident x \<notin> set (map session.ident (SessionStorage_getAll st)) \<longrightarrow>
      fst (snd (addSession x True (loadData st, st)))
        = loadData (snd (snd (addSession x True (loadData st, st)))))
   \<and> fst (snd (deleteClient i True True True (loadData st, st)))
        = loadData (snd (snd (deleteClient i True True True (loadData st, st))))
   \<and> fst (snd (deleteGoal i True (loadData st, st)))
        = loadData (snd (snd (deleteGoal i True (loadData st, st))))
   \<and> fst (snd (deleteSession i True (loadData st, st)))
        = loadData (snd (snd (deleteSession i True (loadData st, st))))
   \<and> fst (snd (updateSettings y True (loadData st, st)))
        = loadData (snd (snd (updateSettings y True (loadData st, st))))
   \<and> (distinct (map session.ident (SessionStorage_getAll st))
        \<and> session.ident x \<in> set (map session.ident (SessionStorage_getAll st)) \<longrightarrow>
      fst (snd (updateSession x True (loadData st, st)))
        = loadData (snd (snd (updateSession x True (loadData st, st)))))
   \<and> (distinct (map client.ident (ClientStorage_getAll st))
        \<and> client.ident c \<in> set (map client.ident (ClientStorage_getAll st)) \<longrightarrow>
      fst (snd (updateClient c now True (loadData st, st))) =
        (loadData (snd (snd (updateClient c now True (loadData st, st)))))
          \<lparr>appState.clients :=
             map (\<lambda>z. if client.ident z = client.ident c
                      then z\<lparr>client.updatedAt := client.updatedAt c\<rparr> else z)
               (ClientStorage_getAll (snd (snd (updateClient c now True (loadData st, st)))))\<rparr>)
   \<and> (distinct (map goal.ident (GoalStorage_getAll st))
        \<and> goal.ident g \<in> set (map goal.ident (GoalStorage_getAll st)) \<longrightarrow>
      fst (snd (updateGoal g now True (loadData st, st))) =
        (loadData (snd (snd (updateGoal g now True (loadData st, st)))))
          \<lparr>appState.goals :=
             map (\<lambda>z. if goal.ident z = goal.ident g
                      then z\<lparr>goal.updatedAt := goal.updatedAt g\<rparr> else z)
               (GoalStorage_getAll (snd (snd (updateGoal g now True (loadData st, st)))))\<rparr>)
   \<and> fst (addClient c now False (loadData st, st)) = False
   \<and> fst (snd (addClient c now False (loadData st, st))) = loadData st
   \<and> fst (updateClient c now False (loadData st, st)) = False
   \<and> fst (snd (updateClient c now False (loadData st, st))) = loadData st
   \<and> fst (deleteClient i okG okS False (loadData st, st)) = False
   \<and> fst (snd (deleteClient i okG okS False (loadData st, st))) = loadData st
   \<and> fst (addGoal g now False (loadData st, st)) = False
   \<and> fst (snd (addGoal g now False (loadData st, st))) = loadData st
   \<and> fst (updateGoal g now False (loadData st, st)) = False
   \<and> fst (snd (updateGoal g now False (loadData st, st))) = loadData st
   \<and> fst (deleteGoal i False (loadData st, st)) = False
   \<and> fst (snd (deleteGoal i False (loadData st, st))) = loadData st
   \<and> fst (addSession x False (loadData st, st)) = False
   \<and> fst (snd (addSession x False (loadData st, st))) = loadData st
   \<and> fst (updateSession x False (loadData st, st)) = False
   \<and> fst (snd (updateSession x False (loadData st, st))) = loadData st
   \<and> fst (deleteSession i False (loadData st, st)) = False
   \<and> fst (snd (deleteSession i False (loadData st, st))) = loadData st
   \<and> fst (updateSettings y False (loadData st, st)) = False
   \<and> fst (snd (updateSettings y False (loadData st, st))) = loadData st"
proof -
  have r: "loadData st = loadData st" by simp
  note k = facade_add_delete_keep_mirror[OF r]
  note f = facade_failure_keeps_mirror[where w = "(loadData st, st)", simplified]
  show ?thesis
    using k(1)[of c now] k(2)[of g now] k(3)[of x] k(4)[of i] k(5)[of i] k(6)[of i] k(7)[of y]
      updateSession_mirror[OF r, of x] updateClient_mirror[OF r, of c now]
      updateGoal_mirror[OF r, of g now]
    by (intro conjI impI) (simp_all add: f)
qed

theorem facade_mirror_witness:
  "client.ident (exClient ''c1'' ''2024-02-01T08:00:00.000Z'')
     \<in> set (map client.ident (ClientStorage_getAll exStorage))
   \<and> distinct (map client.ident (ClientStorage_getAll exStorage))
   \<and> fst (snd (updateClient (exClient ''c1'' ''2024-02-01T08:00:00.000Z'')
        ''2024-02-01T08:00:00.007Z'' True (loadData exStorage, exStorage))) =
        (loadData (snd (snd (updateClient (exClient ''c1'' ''2024-02-01T08:00:00.000Z'')
           ''2024-02-01T08:00:00.007Z'' True (loadData exStorage, exStorage)))))
          \<lparr>appState.clients :=
             map (\<lambda>z. if client.ident z = ''c1''
                      then z\<lparr>client.updatedAt := ''2024-02-01T08:00:00.000Z''\<rparr> else z)
               (ClientStorage_getAll (snd (snd (updateClient
                  (exClient ''c1'' ''2024-02-01T08:00:00.000Z'')
                  ''2024-02-01T08:00:00.007Z'' True (loadData exStorage, exStorage)))))\<rparr>
   \<and> client.ident (exClient ''c9'' ''2024-02-01T08:00:00.000Z'')
     \<notin> set (map client.ident (ClientStorage_getAll exStorage))
   \<and> fst (snd (addClient (exClient ''c9'' ''2024-02-01T08:00:00.000Z'')
        ''2024-02-01T08:00:00.007Z'' True (loadData exStorage, exStorage)))
      = loadData (snd (snd (addClient (exClient ''c9'' ''2024-02-01T08:00:00.000Z'')
        ''2024-02-01T08:00:00.007Z'' True (loadData exStorage, exStorage))))"
proof -
  have a: "client.ident (exClient ''c1'' ''2024-02-01T08:00:00.000Z'')
     \<in> set (map client.ident (ClientStorage_getAll exStorage))"
    and d: "distinct (map client.ident (ClientStorage_getAll exStorage))"
    and n: "client.ident (exClient ''c9'' ''2024-02-01T08:00:00.000Z'')
     \<notin> set (map client.ident (ClientStorage_getAll exStorage))"
    by (simp_all add: exStorage_def exClient_def store_defs)
  have i1: "client.ident (exClient ''c1'' ''2024-02-01T08:00:00.000Z'') = ''c1''"
    and u1: "client.updatedAt (exClient ''c1'' ''2024-02-01T08:00:00.000Z'')
       = ''2024-02-01T08:00:00.000Z''"
    by (simp_all add: exClient_def)
  from facade_mirror[of "exClient ''c1'' ''2024-02-01T08:00:00.000Z''" exStorage
      "''2024-02-01T08:00:00.007Z''"]
    facade_mirror[of "exClient ''c9'' ''2024-02-01T08:00:00.000Z''" exStorage
      "''2024-02-01T08:00:00.007Z''"]
    a d n show ?thesis
    unfolding i1 u1 by blast
qed

section \<open>Session recording\<close>

lemma getGoal_ident: "getGoal m i = Some g \<Longrightarrow> goal.ident g = i"
  by (auto simp: getGoal_def find_Some_iff)

lemma currentGoal_selected:
  assumes "currentGoal m s = Some g"
  shows "goal.ident g \<in> set (selectedGoalIds s)"
proof -
  have i: "currentGoalIndex s < length (selectedGoalIds s)"
    and g: "getGoal m (selectedGoalIds s ! currentGoalIndex s) = Some g"
    using assms by (auto simp: currentGoal_def split: if_splits)
  have "goal.ident g = selectedGoalIds s ! currentGoalIndex s" using g by (rule getGoal_ident)
  then show ?thesis using i by simp
qed

lemma handle_keeps_trials_in_selection:
  assumes "\<not> sessionStarted s \<longrightarrow> screen.trials s = []"
    and "\<forall>t\<in>set (screen.trials s). trial.goalId t \<in> set (selectedGoalIds s)"
  shows "(\<not> sessionStarted (handle m cid s ev) \<longrightarrow> screen.trials (handle m cid s ev) = [])
    \<and> (\<forall>t\<in>set (screen.trials (handle m cid s ev)).
          trial.goalId t \<in> set (selectedGoalIds (handle m cid s ev)))"
proof (cases "getClient m cid = None")
  case True
  then show ?thesis using assms by (simp add: handle_def)
next
  case client: False
  show ?thesis
  proof (cases "sessionStarted s")
    case False
    then have e: "screen.trials s = []" using assms(1) by simp
    show ?thesis using client False e
      by (cases ev) (simp_all add: handle_def toggleGoalSelection_def handleStartSession_def)
  next
    case True
    show ?thesis
    proof (cases ev)
      case (RecordTrial r newId now)
      show ?thesis
      proof (cases "currentGoal m s")
        case None
        then show ?thesis using client True RecordTrial assms
          by (simp add: handle_def handleRecordTrial_def)
      next
        case (Some g)
        have "goal.ident g \<in> set (selectedGoalIds s)" using Some by (rule currentGoal_selected)
        then show ?thesis using client True RecordTrial Some assms
          by (simp add: handle_def handleRecordTrial_def Let_def)
      qed
    next
      case DeleteLastTrial
      then show ?thesis using client True assms
        by (simp add: handle_def handleDeleteLastTrial_def)
    qed (use client True assms in \<open>simp_all add: handle_def handleNextGoal_def handlePrevGoal_def\<close>)
  qed
qed

lemma foldl_handle_keeps_trials_in_selection:
  assumes "\<not> sessionStarted s \<longrightarrow> screen.trials s = []"
    and "\<forall>t\<in>set (screen.trials s). trial.goalId t \<in> set (selectedGoalIds s)"
  shows "\<forall>t\<in>set (screen.trials (foldl (handle m cid) s evs)).
          trial.goalId t \<in> set (selectedGoalIds (foldl (handle m cid) s evs))"
  using assms
proof (induction evs arbitrary: s)
  case Nil
  then show ?case by simp
next
  case (Cons ev evs)
  have "(\<not> sessionStarted (handle m cid s ev) \<longrightarrow> screen.trials (handle m cid s ev) = [])
    \<and> (\<forall>t\<in>set (screen.trials (handle m cid s ev)).
          trial.goalId t \<in> set (selectedGoalIds (handle m cid s ev)))"
    using Cons.prems by (rule handle_keeps_trials_in_selection)
  then show ?case using Cons.IH[of "handle m cid s ev"] by simp
qed

lemma calculateAndUpdateGoalAccuracy_SESSIONS:
  "SESSIONS (snd (calculateAndUpdateGoalAccuracy m0 ts gid io w)) = SESSIONS (snd w)"
  by (cases w; cases io)
     (auto simp: calculateAndUpdateGoalAccuracy_def updateGoal_def GoalStorage_save_def
        setItem_def Let_def split: option.splits prod.splits if_splits)

lemma updateGoalAccuracies_SESSIONS:
  "SESSIONS (snd (updateGoalAccuracies m0 ts gids io w)) = SESSIONS (snd w)"
  by (induction gids arbitrary: io w) (simp_all add: calculateAndUpdateGoalAccuracy_SESSIONS)

text \<open>
  C9. Whatever the goals the screen was opened with and whatever the user did on it, when
  \<open>handleEndSession\<close> saves a session, every trial of that session carries the id of
  the session, the empty placeholder being overwritten, and the goal id of every trial is
  among the goals of the session. The session read back from the store under its id is
  that session.
\<close>

theorem saved_session_trials:
  assumes "fst (handleEndSession cid (foldl (handle m cid) (initialScreen initialGoalIds) evs)
                  newId dateNow createdNow ok io (m, st)) = Some x"
  shows "(\<forall>t\<in>set (session.trials x).
            trial.sessionId t = session.ident x \<and> trial.goalId t \<in> set (session.goals x))
         \<and> SessionStorage_getById (session.ident x)
             (snd (snd (snd (handleEndSession cid
                (foldl (handle m cid) (initialScreen initialGoalIds) evs)
                newId dateNow createdNow ok io (m, st))))) = Some x"
proof -
  define s where "s = foldl (handle m cid) (initialScreen initialGoalIds) evs"
  define y where "y =
     \<lparr>session.ident = newId, session.clientId = cid, session.date = dateNow,
      session.duration = 30,
      session.notes = (if trim (sessionNotes s) = [] then None else Some (trim (sessionNotes s))),
      session.goals = selectedGoalIds s,
      session.trials = map (\<lambda>t. t\<lparr>trial.sessionId := newId\<rparr>) (screen.trials s),
      session.createdAt = createdNow\<rparr>"
  have init: "\<not> sessionStarted (initialScreen initialGoalIds) \<longrightarrow>
                screen.trials (initialScreen initialGoalIds) = []"
    "\<forall>t\<in>set (screen.trials (initialScreen initialGoalIds)).
        trial.goalId t \<in> set (selectedGoalIds (initialScreen initialGoalIds))"
    by (simp_all add: initialScreen_def)
  have inv: "\<forall>t\<in>set (screen.trials s). trial.goalId t \<in> set (selectedGoalIds s)"
    unfolding s_def using init by (rule foldl_handle_keeps_trials_in_selection)
  have a: "fst (handleEndSession cid s newId dateNow createdNow ok io (m, st)) = Some x"
    using assms by (simp add: s_def)
  then have ok: "ok" and xy: "x = y"
    by (auto simp: handleEndSession_def addSession_def SessionStorage_save_def setItem_def
        Let_def y_def split: if_splits prod.splits)
  have tr: "screen.trials s \<noteq> []"
    using a by (auto simp: handleEndSession_def split: if_splits)
  have t: "\<forall>t\<in>set (session.trials y).
            trial.sessionId t = session.ident y \<and> trial.goalId t \<in> set (session.goals y)"
    using inv by (auto simp: y_def)
  have w: "snd (snd (snd (handleEndSession cid s newId dateNow createdNow ok io (m, st))))
      = snd (updateGoalAccuracies m (screen.trials s) (selectedGoalIds s) io
               (snd (addSession y True (m, st))))"
    using ok tr
    by (simp add: handleEndSession_def Let_def y_def addSession_def SessionStorage_save_def
        setItem_def split: prod.splits)
  have "SessionStorage_getAll
          (snd (updateGoalAccuracies m (screen.trials s) (selectedGoalIds s) io
               (snd (addSession y True (m, st)))))
        = SessionStorage_getAll (snd (snd (addSession y True (m, st))))"
    by (simp add: SessionStorage_getAll_def updateGoalAccuracies_SESSIONS)
  also have "\<dots> = (case findIndex (\<lambda>z. session.ident z = session.ident y)
                        (SessionStorage_getAll st) of
                     Some i \<Rightarrow> (SessionStorage_getAll st)[i := y]
                   | None \<Rightarrow> SessionStorage_getAll st @ [y])"
    by (simp add: addSession_def SessionStorage_save_def setItem_def Let_def)
       (simp add: SessionStorage_getAll_def)
  finally have "SessionStorage_getById (session.ident y)
      (snd (updateGoalAccuracies m (screen.trials s) (selectedGoalIds s) io
               (snd (addSession y True (m, st))))) = Some y"
    unfolding SessionStorage_getById_def
    using saved_find[of session.ident y y "SessionStorage_getAll st"]
    by (simp split: option.splits)
  then show ?thesis using t w xy by (simp add: s_def)
qed

theorem saved_session_trials_witness:
  "fst (handleEndSession ''c1''
          (foldl (handle (loadData exStorage) ''c1'') (initialScreen (Some [''g1''])) exEvents)
          ''s3'' ''2024-01-03T10:30:00.000Z'' ''2024-01-03T10:30:00.001Z'' True exIo
          (loadData exStorage, exStorage)) \<noteq> None
   \<and> trial.sessionId ` set (session.trials (the (fst (handleEndSession ''c1''
          (foldl (handle (loadData exStorage) ''c1'') (initialScreen (Some [''g1''])) exEvents)
          ''s3'' ''2024-01-03T10:30:00.000Z'' ''2024-01-03T10:30:00.001Z'' True exIo
          (loadData exStorage, exStorage))))) = {''s3''}
   \<and> trial.goalId ` set (session.trials (the (fst (handleEndSession ''c1''
          (foldl (handle (loadData exStorage) ''c1'') (initialScreen (Some [''g1''])) exEvents)
          ''s3'' ''2024-01-03T10:30:00.000Z'' ''2024-01-03T10:30:00.001Z'' True exIo
          (loadData exStorage, exStorage))))) = {''g1''}
   \<and> length (session.trials (the (fst (handleEndSession ''c1''
          (foldl (handle (loadData exStorage) ''c1'') (initialScreen (Some [''g1''])) exEvents)
          ''s3'' ''2024-01-03T10:30:00.000Z'' ''2024-01-03T10:30:00.001Z'' True exIo
          (loadData exStorage, exStorage))))) = 2"
proof -
  obtain x where h: "fst (handleEndSession ''c1''
          (foldl (handle (loadData exStorage) ''c1'') (initialScreen (Some [''g1''])) exEvents)
          ''s3'' ''2024-01-03T10:30:00.000Z'' ''2024-01-03T10:30:00.001Z'' True exIo
          (loadData exStorage, exStorage)) = Some x"
    and x: "session.ident x = ''s3''" "session.goals x = [''g1'']"
      "length (session.trials x) = 2"
    by (simp add: handleEndSession_def addSession_def SessionStorage_save_def
        Let_def exEvents_def handle_def getClient_def loadData_def store_defs exStorage_def
        exClient_def exGoal_def exSession_def initialScreen_def handleStartSession_def
        handleRecordTrial_def currentGoal_def getGoal_def currentGoalTrials_def)
  obtain t0 where ne: "t0 \<in> set (session.trials x)"
    using x(3) by (cases "session.trials x") auto
  have "\<forall>t\<in>set (session.trials x). trial.sessionId t = ''s3'' \<and> trial.goalId t = ''g1''"
    using saved_session_trials[OF h] x by simp
  then have "trial.sessionId ` set (session.trials x) = {''s3''}"
    and "trial.goalId ` set (session.trials x) = {''g1''}"
    using ne by (auto simp: image_iff)
  then show ?thesis using x by (simp add: h)
qed

subsection \<open>Goal accuracy after a session\<close>














end
